theory Spec2Isabelle
  imports Complex_Main "HOL-Library.Word"
begin

unbundle bit_operations_syntax

section \<open>Audio codec\<close>

text \<open>
  The encoder is the body of \<open>createPcmBlob\<close> (audio utilities) and of the capture
  callback \<open>processor.onaudioprocess\<close> (realtime voice client, \<open>LiveClient.handleOpen\<close>):
  \<^verbatim>\<open>
    const int16 = new Int16Array(l);
    for (let i = 0; i < l; i++) { int16[i] = data[i] * 32768; }
    const bytes = new Uint8Array(int16.buffer);
  \<close>
  The decoder is \<open>decodeAudioData\<close>, three identical copies.

  A sample is a finite float32; multiplying it by \<open>32768\<close> and dividing an int16 by
  \<open>32768.0\<close> are exact in binary floating point (powers of two), so samples are modelled
  as \<open>real\<close>. The samples NaN and the infinities are outside the model.
\<close>

type_synonym int16 = "16 word"
type_synonym byte = "8 word"

text \<open>
  Storing a number into an \<open>Int16Array\<close> element applies ECMAScript's \<open>ToInt16\<close>:
  drop the fraction (towards zero), reduce modulo \<open>2^16\<close>, read as two's complement.
\<close>

definition js_trunc :: "real \<Rightarrow> int" where
  "js_trunc x = (if 0 \<le> x then \<lfloor>x\<rfloor> else \<lceil>x\<rceil>)"

definition toInt16 :: "real \<Rightarrow> int16" where
  "toInt16 x = word_of_int (js_trunc x)"

text \<open>The loop \<open>int16[i] = data[i] * 32768\<close>.\<close>

definition pcmInt16 :: "real list \<Rightarrow> int16 list" where
  "pcmInt16 data = map (\<lambda>x. toInt16 (x * 32768)) data"

text \<open>
  \<open>new Uint8Array(int16.buffer)\<close>: the bytes of the buffer under the array, two per
  element, low byte first (typed arrays use the platform's byte order, little-endian on
  every platform the program runs on).
\<close>

definition int16Bytes :: "int16 \<Rightarrow> byte list" where
  "int16Bytes w = [ucast w, ucast (drop_bit 8 w)]"

definition bufferBytes :: "int16 list \<Rightarrow> byte list" where
  "bufferBytes ws = concat (map int16Bytes ws)"

definition encode :: "real list \<Rightarrow> byte list" where
  "encode data = bufferBytes (pcmInt16 data)"

text \<open>
  The encoder of the spec's words, for comparison: \<open>round(sample * 32768)\<close>, clamped to
  the int16 range.
\<close>

definition encode_spec_int16 :: "real \<Rightarrow> int" where
  "encode_spec_int16 x = max (- 32768) (min 32767 (round (x * 32768)))"

definition encode_spec :: "real list \<Rightarrow> byte list" where
  "encode_spec data = bufferBytes (map (\<lambda>x. word_of_int (encode_spec_int16 x)) data)"

datatype error = RangeError | NotSupportedError

text \<open>
  \<open>new Int16Array(data.buffer)\<close>: a view of the whole buffer under the array
  \<open>data\<close> as 16-bit elements. The bytes given to \<open>newInt16Array\<close>, and so to
  \<open>decodeAudioData\<close>, are those of \<open>data.buffer\<close>, which is all the code reads of
  \<open>data\<close>; they are the array's own bytes when the array spans its buffer, as the
  result of \<open>base64ToUint8Array\<close> (the only argument the program passes) does. The
  constructor throws a \<open>RangeError\<close> when the buffer's byte length is not a multiple
  of 2.
\<close>

fun int16View :: "byte list \<Rightarrow> int16 list" where
  "int16View (lo # hi # bs) = (push_bit 8 (ucast hi) OR ucast lo) # int16View bs"
| "int16View _ = []"

definition newInt16Array :: "byte list \<Rightarrow> error + int16 list" where
  "newInt16Array bs = (if odd (length bs) then Inl RangeError else Inr (int16View bs))"

record audioBuffer =
  sampleRate :: nat
  channelData :: "real list list"

text \<open>
  \<open>ctx.createBuffer(numChannels, frameCount, sampleRate)\<close> of the Web Audio API: the
  frame count is converted to an unsigned integer by dropping its fraction; the call
  throws a \<open>NotSupportedError\<close> when the channel count is zero or above the number of
  channels the implementation supports, when the length is zero, or when the rate is
  outside the range the implementation supports; the new buffer is filled with zeros.
  The limits are those of Chromium: 32 channels, rates from 3000 to 768000 Hz (the
  standard requires at least 32 channels and the rates from 8000 to 96000 Hz). A buffer
  too large for the memory at hand is outside the model.
\<close>

definition maxChannels :: nat where
  "maxChannels = 32"

definition minSampleRate :: nat where
  "minSampleRate = 3000"

definition maxSampleRate :: nat where
  "maxSampleRate = 768000"

definition supported :: "nat \<Rightarrow> nat \<Rightarrow> bool" where
  "supported numChannels rate \<longleftrightarrow>
     1 \<le> numChannels \<and> numChannels \<le> maxChannels \<and>
     minSampleRate \<le> rate \<and> rate \<le> maxSampleRate"

definition createBuffer :: "nat \<Rightarrow> real \<Rightarrow> nat \<Rightarrow> error + audioBuffer" where
  "createBuffer numChannels frameCount rate =
     (if \<not> supported numChannels rate \<or> nat \<lfloor>frameCount\<rfloor> = 0 then Inl NotSupportedError
      else Inr \<lparr>sampleRate = rate,
                channelData = replicate numChannels (replicate (nat \<lfloor>frameCount\<rfloor>) 0)\<rparr>)"

text \<open>
  The inner loop body \<open>channelData[i] = dataInt16[i * numChannels + channel] / 32768.0\<close>.
  A store at an index beyond the end of a \<open>Float32Array\<close> is ignored, whatever the
  value; for an index inside, the element read exists (lemma \<open>read_in_range\<close> below).
\<close>

definition storeSample :: "int16 list \<Rightarrow> nat \<Rightarrow> nat \<Rightarrow> nat \<Rightarrow> real list \<Rightarrow> real list" where
  "storeSample dataInt16 numChannels channel i cd =
     (if i < length cd
      then cd[i := real_of_int (sint (dataInt16 ! (i * numChannels + channel))) / 32768]
      else cd)"

text \<open>\<open>for (let i = 0; i < frameCount; i++)\<close>, with a frame count that may be fractional.\<close>

definition fillChannel :: "int16 list \<Rightarrow> nat \<Rightarrow> real \<Rightarrow> nat \<Rightarrow> real list \<Rightarrow> real list" where
  "fillChannel dataInt16 numChannels frameCount channel cd =
     fold (storeSample dataInt16 numChannels channel) [0 ..< nat \<lceil>frameCount\<rceil>] cd"

definition decodeAudioData :: "byte list \<Rightarrow> nat \<Rightarrow> nat \<Rightarrow> error + audioBuffer" where
  "decodeAudioData data rate numChannels =
     (case newInt16Array data of
        Inl e \<Rightarrow> Inl e
      | Inr dataInt16 \<Rightarrow>
          (let frameCount = real (length dataInt16) / real numChannels in
           case createBuffer numChannels frameCount rate of
             Inl e \<Rightarrow> Inl e
           | Inr buffer \<Rightarrow>
               Inr (buffer\<lparr>channelData :=
                      map (\<lambda>channel. fillChannel dataInt16 numChannels frameCount channel
                                        (channelData buffer ! channel))
                          [0 ..< numChannels]\<rparr>)))"

text \<open>\<open>audioBuffer.duration\<close>: the length in frames over the sample rate.\<close>

definition duration :: "audioBuffer \<Rightarrow> real" where
  "duration b = real (length (hd (channelData b))) / real (sampleRate b)"


section \<open>Realtime voice session\<close>

text \<open>
  The closure state of \<open>startGeminiVoice\<close> (realtime voice client). What the session
  does to the outside (callbacks to its owner, audio sources started and stopped, data
  sent to the remote model) is returned as a list of effects, in the order the code
  performs them. Audio buffer sources are named by the number of sources created before
  them. Audio clock readings and buffer durations are \<open>real\<close>; \<open>Date.now()\<close> is an
  integer count of milliseconds.
\<close>

datatype resource = Absent | Live | Released

record resources =
  audioContext :: resource
  inputAudioContext :: resource
  stream :: resource
  session :: resource

record SlideData =
  title :: string
  bullet_points :: "string list"
  script :: string

text \<open>
  The texts sent to the remote model with \<open>sendText\<close>. The slide request is built from
  the slide's number, the number of slides and the slide; the other texts are named by
  their purpose (the research one carries the summary's teacher script).
\<close>

datatype prompt =
    SlidePrompt nat nat SlideData
  | ResearchPrompt string
  | VisualWaitPrompt
  | VisualReadyPrompt
  | VisualFailedPrompt

datatype callback =
    OnOpen | OnClose | OnText string | OnTurnComplete | OnInterrupted
  | OnSpeakingStart | OnSpeakingStop | OnUserActivity

datatype effect =
    Callback callback
  | SourceStart nat real real
  | SourceStop nat
  | SendRealtimeInput "byte list"
  | SendClientContent prompt
  | AudioDecodeError error

record voice =
  muted :: bool
  stopped :: bool
  nextStartTime :: real
  isSpeaking :: bool
  activeSources :: "nat list"
  sourcesCreated :: nat
  lastActivityTime :: int
  res :: resources

text \<open>\<open>clearAudio\<close>: stop all queued and playing audio.\<close>

definition clearAudio :: "voice \<Rightarrow> voice \<times> effect list" where
  "clearAudio v =
     (v\<lparr>nextStartTime := 0, isSpeaking := False, activeSources := []\<rparr>,
      map SourceStop (activeSources v)
        @ (if isSpeaking v then [Callback OnSpeakingStop] else []))"

record part =
  partText :: string
  inlineData :: "byte list option"

record message =
  interrupted :: bool
  turnComplete :: bool
  parts :: "part list option"

text \<open>
  The \<open>try\<close> block of the audio branch of \<open>handleMessage\<close>, at audio clock reading
  \<open>currentTime\<close>. A decoding error is caught and logged; the frame is dropped.
\<close>

definition playAudio :: "real \<Rightarrow> byte list \<Rightarrow> voice \<Rightarrow> voice \<times> effect list" where
  "playAudio currentTime audioBytes v =
     (case decodeAudioData audioBytes 24000 1 of
        Inl e \<Rightarrow> (v, [AudioDecodeError e])
      | Inr audioBuffer \<Rightarrow>
          (let start = max (nextStartTime v) currentTime;
               source = sourcesCreated v
           in (v\<lparr>nextStartTime := start + duration audioBuffer,
                  activeSources := activeSources v @ [source],
                  sourcesCreated := Suc source\<rparr>,
               [SourceStart source start (duration audioBuffer)])))"

text \<open>
  One iteration of \<open>for (const part of parts)\<close>. A part's text counts when it is not
  empty; \<open>inlineData\<close> holds the bytes of a non-empty \<open>data\<close> string.
\<close>

definition handlePart :: "real \<Rightarrow> part \<Rightarrow> voice \<Rightarrow> voice \<times> effect list" where
  "handlePart currentTime p v =
     (let textEffects = (if partText p \<noteq> [] then [Callback (OnText (partText p))] else [])
      in case inlineData p of
           None \<Rightarrow> (v, textEffects)
         | Some audioBytes \<Rightarrow>
             (let startEffects = (if isSpeaking v then [] else [Callback OnSpeakingStart]);
                  (v', audioEffects) = playAudio currentTime audioBytes (v\<lparr>isSpeaking := True\<rparr>)
              in (v', textEffects @ startEffects @ audioEffects)))"

fun handleParts :: "real \<Rightarrow> part list \<Rightarrow> voice \<Rightarrow> voice \<times> effect list" where
  "handleParts currentTime [] v = (v, [])"
| "handleParts currentTime (p # ps) v =
     (let (v1, e1) = handlePart currentTime p v;
          (v2, e2) = handleParts currentTime ps v1
      in (v2, e1 @ e2))"

definition handleMessage :: "real \<Rightarrow> message \<Rightarrow> voice \<Rightarrow> voice \<times> effect list" where
  "handleMessage currentTime m v =
     (if interrupted m then
        (let (v', es) = clearAudio v in (v', es @ [Callback OnInterrupted]))
      else if turnComplete m then (v, [Callback OnTurnComplete])
      else case parts m of
             None \<Rightarrow> (v, [])
           | Some ps \<Rightarrow> handleParts currentTime ps v)"

text \<open>The listener of a source's \<open>ended\<close> event.\<close>

definition sourceEnded :: "nat \<Rightarrow> voice \<Rightarrow> voice \<times> effect list" where
  "sourceEnded source v =
     (let v' = v\<lparr>activeSources := removeAll source (activeSources v)\<rparr>
      in if activeSources v' = [] \<and> isSpeaking v'
         then (v'\<lparr>isSpeaking := False\<rparr>, [Callback OnSpeakingStop])
         else (v', []))"

text \<open>
  The capture callback \<open>processor.onaudioprocess\<close>, at \<open>Date.now() = now\<close>:
  \<^verbatim>\<open>
    if (stopped || muted) return;
    let sum = 0;
    for (let i = 0; i < inputData.length; i += 4) sum += inputData[i] * inputData[i];
    const rms = Math.sqrt(sum / (inputData.length / 4));
    if (rms > VAD_THRESHOLD) {
      const now = Date.now();
      if (now - lastActivityTime > 500) { lastActivityTime = now; callbacks?.onUserActivity?.(); }
    }
    ... encode and send
  \<close>
\<close>

fun stridedSquares :: "real list \<Rightarrow> real" where
  "stridedSquares [] = 0"
| "stridedSquares (x # xs) = x * x + stridedSquares (drop 3 xs)"

definition rms :: "real list \<Rightarrow> real" where
  "rms inputData = sqrt (stridedSquares inputData / (real (length inputData) / 4))"

definition VAD_THRESHOLD :: real where
  "VAD_THRESHOLD = 0.02"

definition vadCheck :: "int \<Rightarrow> real list \<Rightarrow> voice \<Rightarrow> voice \<times> effect list" where
  "vadCheck now inputData v =
     (if rms inputData > VAD_THRESHOLD then
        (if now - lastActivityTime v > 500
         then (v\<lparr>lastActivityTime := now\<rparr>, [Callback OnUserActivity])
         else (v, []))
      else (v, []))"

definition onaudioprocess :: "int \<Rightarrow> real list \<Rightarrow> voice \<Rightarrow> voice \<times> effect list" where
  "onaudioprocess now inputData v =
     (if stopped v \<or> muted v then (v, [])
      else (let (v', es) = vadCheck now inputData v
            in (v', es @ [SendRealtimeInput (encode inputData)])))"

text \<open>The handle returned to the owner: \<open>stop\<close>, \<open>sendText\<close>, \<open>muteMic\<close>, \<open>unmuteMic\<close>.\<close>

definition closeContext :: "resource \<Rightarrow> resource" where
  "closeContext r = (if r \<noteq> Released then Released else r)"

definition stop :: "voice \<Rightarrow> voice \<times> effect list" where
  "stop v =
     (if stopped v then (v, [])
      else (let (v', es) = clearAudio (v\<lparr>stopped := True\<rparr>)
            in (v'\<lparr>res := \<lparr>audioContext = closeContext (audioContext (res v')),
                            inputAudioContext = closeContext (inputAudioContext (res v')),
                            stream = Released,
                            session = Released\<rparr>\<rparr>, es)))"

definition sendText :: "prompt \<Rightarrow> voice \<Rightarrow> voice \<times> effect list" where
  "sendText t v = (if stopped v then (v, []) else (v, [SendClientContent t]))"

definition muteMic :: "voice \<Rightarrow> voice" where
  "muteMic v = v\<lparr>muted := True\<rparr>"

definition unmuteMic :: "voice \<Rightarrow> voice" where
  "unmuteMic v = v\<lparr>muted := False\<rparr>"

text \<open>
  \<open>startGeminiVoice\<close>, step by step: the API key, the two audio contexts, the
  microphone, the closure state, the connection. The environment says whether an API
  key is stored, whether \<open>getUserMedia\<close> grants the microphone and whether
  \<open>ai.live.connect\<close> succeeds. The function has no \<open>try\<close>: a rejected \<open>await\<close>
  leaves it at once, and the failure is returned with the resources as they are at that
  moment. \<open>voiceWith\<close> is the closure state the function sets up (its step 4);
  \<open>freshVoice\<close> is the session a successful start returns.
\<close>

record env =
  apiKeyStored :: bool
  micGranted :: bool
  handshakeOk :: bool

datatype startError = NoApiKey | MicrophoneUnavailable | ConnectionFailed

definition noResources :: resources where
  "noResources =
     \<lparr>audioContext = Absent, inputAudioContext = Absent, stream = Absent, session = Absent\<rparr>"

definition voiceWith :: "resources \<Rightarrow> voice" where
  "voiceWith r =
     \<lparr>muted = False, stopped = False, nextStartTime = 0, isSpeaking = False,
      activeSources = [], sourcesCreated = 0, lastActivityTime = 0, res = r\<rparr>"

definition startGeminiVoice :: "env \<Rightarrow> (startError \<times> resources) + voice" where
  "startGeminiVoice e =
     (if \<not> apiKeyStored e then Inl (NoApiKey, noResources)
      else (let r1 = noResources\<lparr>audioContext := Live, inputAudioContext := Live\<rparr>
            in if \<not> micGranted e then Inl (MicrophoneUnavailable, r1)
               else (let r2 = r1\<lparr>stream := Live\<rparr>
                     in if \<not> handshakeOk e then Inl (ConnectionFailed, r2)
                        else Inr (voiceWith (r2\<lparr>session := Live\<rparr>)))))"

definition freshVoice :: voice where
  "freshVoice =
     voiceWith \<lparr>audioContext = Live, inputAudioContext = Live, stream = Live, session = Live\<rparr>"

text \<open>
  \<open>LiveClient.connect\<close> and \<open>LiveClient.disconnect\<close> (the older client), on the
  resources alone. \<open>connect\<close> takes the same steps inside \<open>try\<close>, and its \<open>catch\<close>
  calls \<open>disconnect\<close> before it rethrows.
\<close>

definition disconnect :: "resources \<Rightarrow> resources" where
  "disconnect r =
     \<lparr>audioContext = (if audioContext r \<noteq> Absent then closeContext (audioContext r) else Absent),
      inputAudioContext =
        (if inputAudioContext r \<noteq> Absent then closeContext (inputAudioContext r) else Absent),
      stream = (if stream r \<noteq> Absent then Released else Absent),
      session = session r\<rparr>"

definition connect :: "env \<Rightarrow> (startError \<times> resources) + resources" where
  "connect e =
     (let r1 = noResources\<lparr>audioContext := Live, inputAudioContext := Live\<rparr>
      in if \<not> micGranted e then Inl (MicrophoneUnavailable, disconnect r1)
         else (let r2 = r1\<lparr>stream := Live\<rparr>
               in if \<not> handshakeOk e then Inl (ConnectionFailed, disconnect r2)
                  else Inr (r2\<lparr>session := Live\<rparr>)))"

section \<open>Tutor context\<close>

text \<open>
  The state of \<open>TutorProvider\<close>. \<open>voiceObj\<close> is the session object made by the last
  successful \<open>startGeminiVoice\<close>; \<open>realtimeRef\<close> says whether \<open>realtimeRef.current\<close>
  points to it (the object lives on, stopped, after the reference is cleared).
  \<open>effects\<close> collects what the session did to the outside, oldest first.
\<close>

record tutorContext =
  voiceObj :: "voice option"
  realtimeRef :: bool
  isVoiceConnected :: bool
  isRecording :: bool
  isConnecting :: bool
  subtitlesText :: string
  isTutorSpeaking :: bool
  isMicMuted :: bool
  effects :: "effect list"

text \<open>The \<open>voiceCallbacks\<close> object of \<open>startVoiceTutor\<close>: what each callback sets.\<close>

fun tutorCallback :: "callback \<Rightarrow> tutorContext \<Rightarrow> tutorContext" where
  "tutorCallback OnOpen t = t\<lparr>isVoiceConnected := True, isRecording := True, isConnecting := False\<rparr>"
| "tutorCallback OnClose t =
     t\<lparr>isVoiceConnected := False, isRecording := False, isConnecting := False,
       isTutorSpeaking := False\<rparr>"
| "tutorCallback (OnText txt) t = t\<lparr>subtitlesText := subtitlesText t @ txt\<rparr>"
| "tutorCallback OnTurnComplete t = t"
| "tutorCallback OnInterrupted t = t\<lparr>isTutorSpeaking := False\<rparr>"
| "tutorCallback OnSpeakingStart t = t\<lparr>isTutorSpeaking := True\<rparr>"
| "tutorCallback OnSpeakingStop t = t\<lparr>isTutorSpeaking := False\<rparr>"
| "tutorCallback OnUserActivity t = t"

fun callbacksOf :: "effect list \<Rightarrow> callback list" where
  "callbacksOf [] = []"
| "callbacksOf (Callback c # es) = c # callbacksOf es"
| "callbacksOf (_ # es) = callbacksOf es"

text \<open>
  \<open>realtimeRef.current?.f()\<close>: a method of the handle, called when the reference is
  set. The callbacks the method fires run before it returns.
\<close>

definition callHandle :: "(voice \<Rightarrow> voice \<times> effect list) \<Rightarrow> tutorContext \<Rightarrow> tutorContext" where
  "callHandle f t =
     (case voiceObj t of
        None \<Rightarrow> t
      | Some v \<Rightarrow>
          if realtimeRef t
          then (let (v', es) = f v
                in fold tutorCallback (callbacksOf es)
                     (t\<lparr>voiceObj := Some v', effects := effects t @ es\<rparr>))
          else t)"

definition stopVoiceTutor :: "tutorContext \<Rightarrow> tutorContext" where
  "stopVoiceTutor t =
     (callHandle stop t)
       \<lparr>realtimeRef := False, isVoiceConnected := False, isRecording := False,
        isConnecting := False, subtitlesText := [], isTutorSpeaking := False,
        isMicMuted := False\<rparr>"

definition stopAudioPlayback :: "tutorContext \<Rightarrow> tutorContext" where
  "stopAudioPlayback t = (callHandle clearAudio t)\<lparr>isTutorSpeaking := False\<rparr>"

text \<open>
  \<open>startVoiceTutor\<close>. The session's \<open>onopen\<close> fires \<open>onOpen\<close> while the connection
  is made; a failure of \<open>startGeminiVoice\<close> is caught, logged and followed by
  \<open>stopVoiceTutor\<close>.
\<close>

definition startVoiceTutor :: "env \<Rightarrow> tutorContext \<Rightarrow> tutorContext" where
  "startVoiceTutor e t =
     (if isRecording t \<or> isConnecting t then t
      else (let t1 = t\<lparr>isConnecting := True, subtitlesText := []\<rparr>
            in case startGeminiVoice e of
                 Inr handle \<Rightarrow>
                   (tutorCallback OnOpen (t1\<lparr>effects := effects t1 @ [Callback OnOpen]\<rparr>))
                     \<lparr>voiceObj := Some handle, realtimeRef := True\<rparr>
               | Inl err \<Rightarrow> stopVoiceTutor (t1\<lparr>isConnecting := False\<rparr>)))"

definition sendTextToTutor :: "prompt \<Rightarrow> tutorContext \<Rightarrow> tutorContext" where
  "sendTextToTutor txt t =
     (if realtimeRef t then callHandle (sendText txt) (t\<lparr>subtitlesText := []\<rparr>) else t)"

definition ctxMuteMic :: "tutorContext \<Rightarrow> tutorContext" where
  "ctxMuteMic t = (callHandle (\<lambda>v. (muteMic v, [])) t)\<lparr>isMicMuted := True\<rparr>"

definition ctxUnmuteMic :: "tutorContext \<Rightarrow> tutorContext" where
  "ctxUnmuteMic t = (callHandle (\<lambda>v. (unmuteMic v, [])) t)\<lparr>isMicMuted := False\<rparr>"

definition clearSubtitles :: "tutorContext \<Rightarrow> tutorContext" where
  "clearSubtitles t = t\<lparr>subtitlesText := []\<rparr>"


section \<open>Auto-lecture state machine\<close>

text \<open>
  The state of \<open>AutoTutorProvider\<close>: React state (\<open>tutorState\<close>, \<open>isAutoMode\<close>,
  \<open>currentSlideIndex\<close>), the refs, and the callbacks that are waiting to run. A handler
  reads the refs and sets the state; the effects that copy state into the refs run after
  the handler (\<open>commit\<close> below). The panels, overlays and the \<open>isUserSpeaking\<close> flag,
  which only the display reads, are not part of the model.
\<close>

datatype TutorState =
    idle | auto_explaining | paused_for_question | answering
  | research_mode | visual_explaining | waiting_to_resume | finished

datatype questionType = slide_related | general_concept | external | visual_request

text \<open>
  A waiting callback: a \<open>setTimeout\<close> callback with what its closure holds, or the
  rest of the classification effect's \<open>async\<close> function after an \<open>await\<close>.
\<close>

datatype task =
    AdvanceTimer nat
  | VisualCloseTimer
  | GraceTimer
  | ExplainTimer
  | ResearchTimer string
  | ResumeTimer
  | AwaitClassification string
  | AwaitResearch
  | AwaitVisual

datatype outcome =
    Elapsed
  | Classified questionType
  | Researched string
  | Generated "string option"
  | Threw

record autoTutor =
  tutorState :: TutorState
  isAutoMode :: bool
  currentSlideIndex :: nat
  slidesRef :: "SlideData list"
  stateRef :: TutorState
  currentSlideIndexRef :: nat
  isAutoModeRef :: bool
  pendingSlideExplainRef :: bool
  advanceTimerRef :: "nat option"
  researchTimerRef :: "nat option"
  isVisualGeneratingRef :: bool
  waiting :: "(nat \<times> task) list"
  tasksCreated :: nat
  tutor :: tutorContext

definition withTutor :: "(tutorContext \<Rightarrow> tutorContext) \<Rightarrow> autoTutor \<Rightarrow> autoTutor" where
  "withTutor f s = s\<lparr>tutor := f (tutor s)\<rparr>"

text \<open>
  \<open>setTimeout\<close> (and the start of an awaited call): the callback waits under a new
  identifier, which is never 0. \<open>clearTimeout\<close> removes it; for an identifier that is no
  longer waiting it does nothing.
\<close>

definition setTimeout :: "task \<Rightarrow> autoTutor \<Rightarrow> nat \<times> autoTutor" where
  "setTimeout k s =
     (Suc (tasksCreated s),
      s\<lparr>waiting := waiting s @ [(Suc (tasksCreated s), k)], tasksCreated := Suc (tasksCreated s)\<rparr>)"

definition clearTimeout :: "nat \<Rightarrow> autoTutor \<Rightarrow> autoTutor" where
  "clearTimeout i s = s\<lparr>waiting := filter (\<lambda>(j, k). j \<noteq> i) (waiting s)\<rparr>"

text \<open>\<open>if (ref.current) clearTimeout(ref.current)\<close>: the ref keeps its value.\<close>

definition clearIfSet :: "nat option \<Rightarrow> autoTutor \<Rightarrow> autoTutor" where
  "clearIfSet r s = (case r of None \<Rightarrow> s | Some i \<Rightarrow> clearTimeout i s)"

definition explainCurrentSlide :: "autoTutor \<Rightarrow> autoTutor" where
  "explainCurrentSlide s =
     (let slides = slidesRef s; index = currentSlideIndexRef s
      in if index \<ge> length slides then s\<lparr>tutorState := finished\<rparr>
         else withTutor (sendTextToTutor (SlidePrompt (index + 1) (length slides) (slides ! index)))
                (withTutor clearSubtitles (s\<lparr>tutorState := auto_explaining\<rparr>)))"

definition handleTurnComplete :: "autoTutor \<Rightarrow> autoTutor" where
  "handleTurnComplete s =
     (let state = stateRef s
      in if state = auto_explaining then
           (let nextIndex = currentSlideIndexRef s + 1
            in if nextIndex \<ge> length (slidesRef s) then s\<lparr>tutorState := finished\<rparr>
               else (let (i, s') = setTimeout (AdvanceTimer nextIndex)
                                     (clearIfSet (advanceTimerRef s) s)
                     in s'\<lparr>advanceTimerRef := Some i\<rparr>))
         else if state = answering \<or> state = paused_for_question then
           s\<lparr>tutorState := waiting_to_resume\<rparr>
         else if state = research_mode then s\<lparr>tutorState := waiting_to_resume\<rparr>
         else if state = visual_explaining then
           (if isVisualGeneratingRef s then s
            else snd (setTimeout VisualCloseTimer s))
         else s)"

definition handleUserSpeechDetected :: "autoTutor \<Rightarrow> autoTutor" where
  "handleUserSpeechDetected s =
     (if stateRef s = auto_explaining then
        (let s1 = (clearIfSet (advanceTimerRef s) s)\<lparr>advanceTimerRef := None\<rparr>;
             s2 = withTutor stopAudioPlayback s1;
             s3 = s2\<lparr>tutorState := paused_for_question\<rparr>
         in snd (setTimeout GraceTimer s3))
      else s)"

text \<open>
  The body of the classification effect's timer callback up to its first \<open>await\<close>:
  \<open>recentText\<close> is the last 250 characters of the subtitles the effect saw, and the
  callback gives up when \<open>trim\<close> leaves nothing of them. A character of a \<open>string\<close>
  here is a UTF-16 code unit below 256; among those, \<open>trim\<close> strips the seven of
  \<open>whitespace\<close> (tab, line feed, vertical tab, form feed, carriage return, space
  and no-break space), and \<open>toLowerCase\<close> changes the letters A to Z and the
  capital letters from U+00C0 to U+00DE.
\<close>

definition whitespace :: "char set" where
  "whitespace = {CHR 0x20, CHR 0x09, CHR 0x0A, CHR 0x0B, CHR 0x0C, CHR 0x0D, CHR 0xA0}"

definition researchTimerFired :: "string \<Rightarrow> autoTutor \<Rightarrow> autoTutor" where
  "researchTimerFired subtitles s =
     (let s1 = s\<lparr>researchTimerRef := None\<rparr>;
          recentText = drop (length subtitles - 250) subtitles
      in if stateRef s1 \<noteq> answering then s1
         else if currentSlideIndexRef s1 \<ge> length (slidesRef s1) then s1
         else if dropWhile (\<lambda>c. c \<in> whitespace) recentText = [] then s1
         else snd (setTimeout (AwaitClassification recentText) s1))"

text \<open>After \<open>await detectQuestionType(...)\<close>.\<close>

definition classified :: "outcome \<Rightarrow> autoTutor \<Rightarrow> autoTutor" where
  "classified r s =
     (case r of
        Classified external \<Rightarrow> snd (setTimeout AwaitResearch (s\<lparr>tutorState := research_mode\<rparr>))
      | Classified visual_request \<Rightarrow>
          (let s1 = s\<lparr>tutorState := visual_explaining\<rparr>;
               s2 = withTutor ctxMuteMic s1;
               s3 = s2\<lparr>isVisualGeneratingRef := True\<rparr>;
               s4 = withTutor (sendTextToTutor VisualWaitPrompt) s3
           in snd (setTimeout AwaitVisual s4))
      | _ \<Rightarrow> s)"

text \<open>After the searches and \<open>await summarizeForTeaching(...)\<close>.\<close>

definition researched :: "outcome \<Rightarrow> autoTutor \<Rightarrow> autoTutor" where
  "researched r s =
     (case r of
        Researched teacherScript \<Rightarrow> withTutor (sendTextToTutor (ResearchPrompt teacherScript)) s
      | _ \<Rightarrow> s)"

text \<open>
  After the visual generation, whose own \<open>try\<close> turns a failure into \<open>url = null\<close>;
  an empty URL counts as none.
\<close>

definition generated :: "outcome \<Rightarrow> autoTutor \<Rightarrow> autoTutor" where
  "generated r s =
     (let url = (case r of Generated (Some u) \<Rightarrow> (if u = [] then None else Some u) | _ \<Rightarrow> None);
          s1 = s\<lparr>isVisualGeneratingRef := False\<rparr>
      in case url of
           Some u \<Rightarrow> withTutor (sendTextToTutor VisualReadyPrompt) s1
         | None \<Rightarrow>
             (withTutor (sendTextToTutor VisualFailedPrompt) (withTutor ctxUnmuteMic s1))
               \<lparr>tutorState := answering\<rparr>)"

text \<open>What a waiting callback does when it runs.\<close>

fun runTask :: "task \<Rightarrow> outcome \<Rightarrow> autoTutor \<Rightarrow> autoTutor" where
  "runTask (AdvanceTimer nextIndex) r s =
     (let s1 = s\<lparr>advanceTimerRef := None\<rparr>
      in if stateRef s1 = auto_explaining \<and> isAutoModeRef s1
         then explainCurrentSlide
                (s1\<lparr>currentSlideIndex := nextIndex, currentSlideIndexRef := nextIndex\<rparr>)
         else s1)"
| "runTask VisualCloseTimer r s =
     (withTutor ctxUnmuteMic s)\<lparr>tutorState := waiting_to_resume\<rparr>"
| "runTask GraceTimer r s =
     (if stateRef s = paused_for_question then s\<lparr>tutorState := answering\<rparr> else s)"
| "runTask ExplainTimer r s = explainCurrentSlide s"
| "runTask (ResearchTimer subtitles) r s = researchTimerFired subtitles s"
| "runTask ResumeTimer r s =
     (if stateRef s = waiting_to_resume then
        (let nextIndex = currentSlideIndexRef s + 1;
             s1 = (if nextIndex < length (slidesRef s)
                   then s\<lparr>currentSlideIndex := nextIndex, currentSlideIndexRef := nextIndex\<rparr>
                   else s)
         in explainCurrentSlide (withTutor clearSubtitles s1))
      else s)"
| "runTask (AwaitClassification recentText) r s = classified r s"
| "runTask AwaitResearch r s = researched r s"
| "runTask AwaitVisual r s = generated r s"

definition resume :: "nat \<Rightarrow> outcome \<Rightarrow> autoTutor \<Rightarrow> autoTutor" where
  "resume i r s =
     (case map_of (waiting s) i of
        None \<Rightarrow> s
      | Some k \<Rightarrow> runTask k r (clearTimeout i s))"

text \<open>The actions the provider exports.\<close>

definition startAutoExplain :: "env \<Rightarrow> SlideData list \<Rightarrow> autoTutor \<Rightarrow> autoTutor" where
  "startAutoExplain e slides s =
     (let s1 = s\<lparr>slidesRef := slides, currentSlideIndex := 0, isAutoMode := True,
                 tutorState := auto_explaining\<rparr>
      in if \<not> isVoiceConnected (tutor s1)
         then (withTutor (startVoiceTutor e) s1)\<lparr>pendingSlideExplainRef := True\<rparr>
         else snd (setTimeout ExplainTimer s1))"

definition stopAutoExplain :: "autoTutor \<Rightarrow> autoTutor" where
  "stopAutoExplain s =
     (let s1 = clearIfSet (advanceTimerRef s) s;
          s2 = clearIfSet (researchTimerRef s1) s1;
          s3 = s2\<lparr>isAutoMode := False, tutorState := idle\<rparr>;
          s4 = withTutor stopAudioPlayback s3;
          s5 = withTutor clearSubtitles s4
      in withTutor stopVoiceTutor s5)"

definition pauseAutoExplain :: "autoTutor \<Rightarrow> autoTutor" where
  "pauseAutoExplain s =
     (withTutor stopAudioPlayback (clearIfSet (advanceTimerRef s) s))
       \<lparr>tutorState := paused_for_question\<rparr>"

definition resumeAutoExplain :: "autoTutor \<Rightarrow> autoTutor" where
  "resumeAutoExplain s =
     (let s1 = withTutor clearSubtitles s;
          nextIndex = currentSlideIndexRef s1 + 1;
          s2 = (if (stateRef s1 = waiting_to_resume \<or> stateRef s1 = paused_for_question
                    \<or> stateRef s1 = answering) \<and> nextIndex < length (slidesRef s1)
                then s1\<lparr>currentSlideIndex := nextIndex, currentSlideIndexRef := nextIndex\<rparr>
                else s1)
      in explainCurrentSlide s2)"

definition goToSlide :: "int \<Rightarrow> autoTutor \<Rightarrow> autoTutor" where
  "goToSlide index s =
     (if index < 0 \<or> index \<ge> int (length (slidesRef s)) then s
      else (let s1 = clearIfSet (advanceTimerRef s) s;
                s2 = s1\<lparr>currentSlideIndex := nat index, currentSlideIndexRef := nat index\<rparr>
            in if isAutoModeRef s2 \<and> stateRef s2 \<noteq> idle
               then explainCurrentSlide
                      (withTutor stopAudioPlayback (withTutor clearSubtitles s2))
               else s2))"


text \<open>
  The effects that run after a handler, in the order the provider declares them; each
  runs when one of the values it depends on differs from the last render (\<open>prev\<close>):
  the three that copy state into refs, the effect that looks for a resume keyword in
  the subtitles, the classification effect up to its \<open>setTimeout\<close>, and the effect
  that starts the first explanation once the voice session is connected.
\<close>

definition toLowerCase :: "string \<Rightarrow> string" where
  "toLowerCase txt =
     map (\<lambda>c. let n = (of_char c :: nat)
              in if (65 \<le> n \<and> n \<le> 90) \<or> (192 \<le> n \<and> n \<le> 222 \<and> n \<noteq> 215)
                 then char_of (n + 32) else c) txt"

text \<open>\<open>lower.includes(kw)\<close>: the keyword occurs somewhere in the text.\<close>

fun stringIncludes :: "string \<Rightarrow> string \<Rightarrow> bool" where
  "stringIncludes [] kw = (kw = [])"
| "stringIncludes (c # cs) kw = (take (length kw) (c # cs) = kw \<or> stringIncludes cs kw)"

definition resumeKeywords :: "string list" where
  "resumeKeywords = [''continue'', ''next'', ''ok'', ''go on'', ''resume'', ''keep going'']"

definition resumeKeywordEffect :: "autoTutor \<Rightarrow> autoTutor" where
  "resumeKeywordEffect s =
     (if stateRef s \<noteq> waiting_to_resume then s
      else (let lower = toLowerCase (subtitlesText (tutor s))
            in if list_ex (stringIncludes lower) resumeKeywords
                    \<and> length (subtitlesText (tutor s)) > 5
               then snd (setTimeout ResumeTimer s) else s))"

definition classificationEffect :: "autoTutor \<Rightarrow> autoTutor" where
  "classificationEffect s =
     (if tutorState s \<noteq> paused_for_question then s
      else (let (i, s') = setTimeout (ResearchTimer (subtitlesText (tutor s)))
                            (clearIfSet (researchTimerRef s) s)
            in s'\<lparr>researchTimerRef := Some i\<rparr>))"

definition pendingExplainEffect :: "autoTutor \<Rightarrow> autoTutor" where
  "pendingExplainEffect s =
     (if isVoiceConnected (tutor s) \<and> pendingSlideExplainRef s \<and> isAutoModeRef s
      then snd (setTimeout ExplainTimer (s\<lparr>pendingSlideExplainRef := False\<rparr>))
      else s)"

definition commit :: "autoTutor \<Rightarrow> autoTutor \<Rightarrow> autoTutor" where
  "commit prev s =
     (let s1 = (if tutorState s \<noteq> tutorState prev then s\<lparr>stateRef := tutorState s\<rparr> else s);
          s2 = (if currentSlideIndex s1 \<noteq> currentSlideIndex prev
                then s1\<lparr>currentSlideIndexRef := currentSlideIndex s1\<rparr> else s1);
          s3 = (if isAutoMode s2 \<noteq> isAutoMode prev
                then s2\<lparr>isAutoModeRef := isAutoMode s2\<rparr> else s2);
          s3' = (if subtitlesText (tutor s3) \<noteq> subtitlesText (tutor prev)
                 then resumeKeywordEffect s3 else s3);
          s4 = (if tutorState s3' \<noteq> tutorState prev
                    \<or> subtitlesText (tutor s3') \<noteq> subtitlesText (tutor prev)
                then classificationEffect s3' else s3')
      in if isVoiceConnected (tutor s4) \<noteq> isVoiceConnected (tutor prev)
         then pendingExplainEffect s4 else s4)"

text \<open>
  A callback of the session reaches the tutor context first and is then forwarded
  through \<open>onTurnComplete\<close>, \<open>onUserSpeechDetected\<close> and \<open>onUserActivity\<close>, which
  hold the handlers while auto mode is on (the registering effect depends on
  \<open>isAutoMode\<close>, as the effect that sets \<open>isAutoModeRef\<close> does).
\<close>

definition deliver :: "callback \<Rightarrow> autoTutor \<Rightarrow> autoTutor" where
  "deliver c s =
     (let s1 = withTutor (tutorCallback c) s
      in case c of
           OnTurnComplete \<Rightarrow> (if isAutoModeRef s1 then handleTurnComplete s1 else s1)
         | OnInterrupted \<Rightarrow> (if isAutoModeRef s1 then handleUserSpeechDetected s1 else s1)
         | OnUserActivity \<Rightarrow> (if isAutoModeRef s1 then handleUserSpeechDetected s1 else s1)
         | _ \<Rightarrow> s1)"

definition perform :: "effect \<Rightarrow> autoTutor \<Rightarrow> autoTutor" where
  "perform e s =
     (let s1 = withTutor (\<lambda>t. t\<lparr>effects := effects t @ [e]\<rparr>) s
      in case e of Callback c \<Rightarrow> deliver c s1 | _ \<Rightarrow> s1)"

text \<open>Something happens to the session object: a message, a captured frame, a source ends.\<close>

definition sessionEvent :: "(voice \<Rightarrow> voice \<times> effect list) \<Rightarrow> autoTutor \<Rightarrow> autoTutor" where
  "sessionEvent f s =
     (case voiceObj (tutor s) of
        None \<Rightarrow> s
      | Some v \<Rightarrow>
          (let (v', es) = f v
           in fold perform es (withTutor (\<lambda>t. t\<lparr>voiceObj := Some v'\<rparr>) s)))"

datatype event =
    ServerMessage real message
  | AudioProcess int "real list"
  | SourceEnded nat
  | TaskRuns nat outcome
  | StartAutoExplain env "SlideData list"
  | StopAutoExplain
  | PauseAutoExplain
  | ResumeAutoExplain
  | GoToSlide int

fun handle :: "event \<Rightarrow> autoTutor \<Rightarrow> autoTutor" where
  "handle (ServerMessage currentTime m) s = sessionEvent (handleMessage currentTime m) s"
| "handle (AudioProcess now inputData) s = sessionEvent (onaudioprocess now inputData) s"
| "handle (SourceEnded source) s = sessionEvent (sourceEnded source) s"
| "handle (TaskRuns i r) s = resume i r s"
| "handle (StartAutoExplain e slides) s = startAutoExplain e slides s"
| "handle StopAutoExplain s = stopAutoExplain s"
| "handle PauseAutoExplain s = pauseAutoExplain s"
| "handle ResumeAutoExplain s = resumeAutoExplain s"
| "handle (GoToSlide index) s = goToSlide index s"

definition step :: "event \<Rightarrow> autoTutor \<Rightarrow> autoTutor" where
  "step ev s = commit s (handle ev s)"

definition run :: "event list \<Rightarrow> autoTutor \<Rightarrow> autoTutor" where
  "run evs s = fold step evs s"

definition initialTutor :: tutorContext where
  "initialTutor =
     \<lparr>voiceObj = None, realtimeRef = False, isVoiceConnected = False, isRecording = False,
      isConnecting = False, subtitlesText = [], isTutorSpeaking = False, isMicMuted = False,
      effects = []\<rparr>"

definition initial :: autoTutor where
  "initial =
     \<lparr>tutorState = idle, isAutoMode = False, currentSlideIndex = 0, slidesRef = [],
      stateRef = idle, currentSlideIndexRef = 0, isAutoModeRef = False,
      pendingSlideExplainRef = False, advanceTimerRef = None, researchTimerRef = None,
      isVisualGeneratingRef = False, waiting = [], tasksCreated = 0, tutor = initialTutor\<rparr>"


section \<open>Drivers and reference notions for the properties\<close>

text \<open>
  The value of the 16-bit two's-complement integer stored low byte first in two bytes.
\<close>

definition le_int16 :: "byte \<Rightarrow> byte \<Rightarrow> int" where
  "le_int16 lo hi = (let u = uint lo + 256 * uint hi in if u < 32768 then u else u - 65536)"

text \<open>
  The round trip of the spec's words: decoding the encoded samples (one channel) gives
  one channel with a sample for each input sample, each within one quantisation step.
\<close>

definition roundTrips :: "nat \<Rightarrow> real list \<Rightarrow> bool" where
  "roundTrips rate s =
     (case decodeAudioData (encode s) rate 1 of
        Inl e \<Rightarrow> False
      | Inr frame \<Rightarrow>
          (case channelData frame of
             [ys] \<Rightarrow> list_all2 (\<lambda>y x. \<bar>y - x\<bar> \<le> 1 / 32768) ys s
           | _ \<Rightarrow> False))"

text \<open>The channels \<open>decodeAudioData\<close> fills, written without the loops.\<close>

definition decoded :: "int16 list \<Rightarrow> nat \<Rightarrow> real list list" where
  "decoded d nc =
     map (\<lambda>ch. map (\<lambda>i. real_of_int (sint (d ! (i * nc + ch))) / 32768) [0 ..< length d div nc])
         [0 ..< nc]"

text \<open>
  A sequence of server messages, each handled at its audio clock reading, and a sequence
  of captured frames, each processed at its \<open>Date.now()\<close>.
\<close>

fun receiveAll :: "(real \<times> message) list \<Rightarrow> voice \<Rightarrow> voice \<times> effect list" where
  "receiveAll [] v = (v, [])"
| "receiveAll ((currentTime, m) # ms) v =
     (let (v1, e1) = handleMessage currentTime m v;
          (v2, e2) = receiveAll ms v1
      in (v2, e1 @ e2))"

fun captureAll :: "(int \<times> real list) list \<Rightarrow> voice \<Rightarrow> voice \<times> effect list" where
  "captureAll [] v = (v, [])"
| "captureAll ((now, inputData) # fs) v =
     (let (v1, e1) = onaudioprocess now inputData v;
          (v2, e2) = captureAll fs v1
      in (v2, e1 @ e2))"

text \<open>The schedule: start time and duration of each source started, in order.\<close>

fun starts :: "effect list \<Rightarrow> (real \<times> real) list" where
  "starts [] = []"
| "starts (SourceStart source start d # es) = (start, d) # starts es"
| "starts (_ # es) = starts es"

text \<open>
  A schedule in which nothing starts before \<open>lo\<close> or before the item before it has
  played to its end, and the time at which such a schedule ends.
\<close>

fun noOverlap :: "real \<Rightarrow> (real \<times> real) list \<Rightarrow> bool" where
  "noOverlap lo [] = True"
| "noOverlap lo ((start, d) # sch) = (lo \<le> start \<and> noOverlap (start + d) sch)"

fun endOf :: "real \<Rightarrow> (real \<times> real) list \<Rightarrow> real" where
  "endOf lo [] = lo"
| "endOf lo ((start, d) # sch) = endOf (start + d) sch"

definition scheduled :: "voice \<Rightarrow> voice \<times> effect list \<Rightarrow> bool" where
  "scheduled v r \<longleftrightarrow>
     noOverlap (nextStartTime v) (starts (snd r)) \<and>
     nextStartTime (fst r) = endOf (nextStartTime v) (starts (snd r))"

definition activityCount :: "effect list \<Rightarrow> nat" where
  "activityCount es = length (filter (\<lambda>e. e = Callback OnUserActivity) es)"

text \<open>
  The times (\<open>Date.now()\<close>) of the captured frames at which the callback raised
  \<open>onUserActivity\<close>, in order.
\<close>

fun activityTimes :: "(int \<times> real list) list \<Rightarrow> voice \<Rightarrow> int list" where
  "activityTimes [] v = []"
| "activityTimes ((now, inputData) # fs) v =
     (let (v1, e1) = onaudioprocess now inputData v
      in (if Callback OnUserActivity \<in> set e1 then [now] else []) @ activityTimes fs v1)"

text \<open>
  The debounce of the spec's words, with the code's strict comparison: a frame raises
  an event when its RMS exceeds the threshold and more than 500 ms have passed since
  the last event raised (\<open>lastTime\<close>), and that event becomes the last one.
\<close>

fun vadSpec :: "int \<Rightarrow> (int \<times> real list) list \<Rightarrow> int list" where
  "vadSpec lastTime [] = []"
| "vadSpec lastTime ((now, inputData) # fs) =
     (if rms inputData > VAD_THRESHOLD \<and> now - lastTime > 500
      then now # vadSpec now fs
      else vadSpec lastTime fs)"

text \<open>Times of which each is more than 500 ms after the one before it, the first after \<open>lastTime\<close>.\<close>

fun spaced :: "int \<Rightarrow> int list \<Rightarrow> bool" where
  "spaced lastTime [] = True"
| "spaced lastTime (t # ts) = (t - lastTime > 500 \<and> spaced t ts)"


section \<open>Scenarios\<close>

text \<open>Environments, a two-slide deck, server messages and event sequences used below.\<close>

definition lectureEnv :: env where
  "lectureEnv = \<lparr>apiKeyStored = True, micGranted = True, handshakeOk = True\<rparr>"

definition deniedEnv :: env where
  "deniedEnv = \<lparr>apiKeyStored = True, micGranted = False, handshakeOk = True\<rparr>"

definition offlineEnv :: env where
  "offlineEnv = \<lparr>apiKeyStored = True, micGranted = True, handshakeOk = False\<rparr>"

definition twoSlides :: "SlideData list" where
  "twoSlides = [\<lparr>title = ''Cells'', bullet_points = [''Membrane''], script = ''A cell is''\<rparr>,
                \<lparr>title = ''Energy'', bullet_points = [], script = ''Mitochondria make''\<rparr>]"

definition textMessage :: "string \<Rightarrow> message" where
  "textMessage txt =
     \<lparr>interrupted = False, turnComplete = False,
      parts = Some [\<lparr>partText = txt, inlineData = None\<rparr>]\<rparr>"

definition audioMessage :: "byte list \<Rightarrow> message" where
  "audioMessage audioBytes =
     \<lparr>interrupted = False, turnComplete = False,
      parts = Some [\<lparr>partText = [], inlineData = Some audioBytes\<rparr>]\<rparr>"

definition interruptedMessage :: message where
  "interruptedMessage = \<lparr>interrupted = True, turnComplete = False, parts = None\<rparr>"

definition turnCompleteMessage :: message where
  "turnCompleteMessage = \<lparr>interrupted = False, turnComplete = True, parts = None\<rparr>"

text \<open>A session that is playing two queued sources.\<close>

definition busyVoice :: voice where
  "busyVoice =
     freshVoice\<lparr>nextStartTime := 2, isSpeaking := True, activeSources := [0, 1],
                sourcesCreated := 2\<rparr>"

text \<open>
  A lecture is started, the first slide is requested, the student interrupts and asks
  for a picture, the grace timer and the classification timer run, and the question is
  classified as a visual request.
\<close>

definition visualRequestTrace :: "event list" where
  "visualRequestTrace =
     [StartAutoExplain lectureEnv twoSlides,
      TaskRuns 1 Elapsed,
      ServerMessage 0 (textMessage ''show me a picture''),
      ServerMessage 0 interruptedMessage,
      TaskRuns 2 Elapsed,
      TaskRuns 3 Elapsed,
      TaskRuns 4 (Classified visual_request)]"

text \<open>Then the picture is generated and the model finishes explaining it.\<close>

definition visualTrace :: "event list" where
  "visualTrace =
     visualRequestTrace @
     [TaskRuns 5 (Generated (Some ''blob:image'')),
      ServerMessage 0 turnCompleteMessage]"

text \<open>
  A lecture is started, the first slide is requested, the student interrupts, and the
  model completes its answer.
\<close>

text \<open>
  A lecture is started, the first slide is requested, the model sends two frames of
  audio and completes its turn: the audio is queued (the session is then
  \<open>busyVoice1\<close>) and the advance timer is waiting.
\<close>

definition busyVoice1 :: voice where
  "busyVoice1 =
     freshVoice\<lparr>nextStartTime := 1 / 12000, isSpeaking := True, activeSources := [0],
                sourcesCreated := 1\<rparr>"

definition narratingTrace :: "event list" where
  "narratingTrace =
     [StartAutoExplain lectureEnv twoSlides,
      TaskRuns 1 Elapsed,
      ServerMessage 0 (audioMessage [0, 0, 0, 0]),
      ServerMessage 0 turnCompleteMessage]"

definition answeredTrace :: "event list" where
  "answeredTrace =
     [StartAutoExplain lectureEnv twoSlides,
      TaskRuns 1 Elapsed,
      ServerMessage 0 interruptedMessage,
      ServerMessage 0 turnCompleteMessage]"


section \<open>The codec: bytes and words\<close>

lemma view_bytes:
  "push_bit 8 (ucast (ucast (drop_bit 8 w) :: byte)) OR ucast (ucast w :: byte) = (w::int16)"
  by (rule bit_word_eqI) (auto simp add: bit_simps)

lemma int16View_bufferBytes: "int16View (bufferBytes ws) = ws"
  by (induction ws) (simp_all add: bufferBytes_def int16Bytes_def view_bytes)

lemma length_bufferBytes: "length (bufferBytes ws) = 2 * length ws"
  by (induction ws) (simp_all add: bufferBytes_def int16Bytes_def)

lemma length_int16View: "length (int16View bs) = length bs div 2"
  by (induction bs rule: int16View.induct) simp_all

lemma int16View_nth:
  "k < length bs div 2 \<Longrightarrow>
   int16View bs ! k = push_bit 8 (ucast (bs ! (2 * k + 1))) OR ucast (bs ! (2 * k))"
proof (induction bs arbitrary: k rule: int16View.induct)
  case (1 lo hi bs)
  then show ?case by (cases k) simp_all
qed simp_all

lemma bufferBytes_nth:
  "i < length ws \<Longrightarrow>
   bufferBytes ws ! (2 * i) = ucast (ws ! i) \<and> bufferBytes ws ! (2 * i + 1) = ucast (drop_bit 8 (ws ! i))"
proof (induction ws arbitrary: i)
  case Nil
  then show ?case by simp
next
  case (Cons w ws)
  have unfold: "bufferBytes (w # ws) = ucast w # ucast (drop_bit 8 w) # bufferBytes ws"
    by (simp add: bufferBytes_def int16Bytes_def)
  show ?case
  proof (cases i)
    case 0
    then show ?thesis by (simp add: unfold)
  next
    case (Suc j)
    then have "j < length ws" using Cons.prems by simp
    then show ?thesis using Cons.IH [of j] Suc by (simp add: unfold)
  qed
qed

lemma storeSample_length: "length (storeSample d nc ch i cd) = length cd"
  by (simp add: storeSample_def)

lemma fold_storeSample_length: "length (fold (storeSample d nc ch) is cd) = length cd"
  by (induction "is" arbitrary: cd) (simp_all add: storeSample_length)

lemma storeSample_nth:
  "j < length xs \<Longrightarrow>
   storeSample d nc ch n xs ! j =
     (if j = n then real_of_int (sint (d ! (j * nc + ch))) / 32768 else xs ! j)"
  by (simp add: storeSample_def)

lemma fold_storeSample_nth:
  "j < length cd \<Longrightarrow>
   fold (storeSample d nc ch) [0 ..< n] cd ! j =
     (if j < n then real_of_int (sint (d ! (j * nc + ch))) / 32768 else cd ! j)"
proof (induction n)
  case 0
  then show ?case by simp
next
  case (Suc n)
  define xs where "xs = fold (storeSample d nc ch) [0 ..< n] cd"
  have len: "length xs = length cd"
    unfolding xs_def by (rule fold_storeSample_length)
  have step: "fold (storeSample d nc ch) [0 ..< Suc n] cd = storeSample d nc ch n xs"
    by (simp add: xs_def)
  have ih: "xs ! j = (if j < n then real_of_int (sint (d ! (j * nc + ch))) / 32768 else cd ! j)"
    unfolding xs_def using Suc by simp
  have "j < length xs" using Suc.prems len by simp
  then show ?case
    unfolding step by (simp add: storeSample_nth ih less_Suc_eq)
qed

lemma read_in_range:
  assumes "i < nat \<lfloor>real L / real nc\<rfloor>" and "ch < nc"
  shows "i * nc + ch < L"
proof -
  have "nat \<lfloor>real L / real nc\<rfloor> = L div nc"
    by (metis floor_divide_of_nat_eq nat_int)
  then have "Suc i \<le> L div nc" using assms(1) by simp
  then have "Suc i * nc \<le> L div nc * nc" by (rule mult_le_mono1)
  also have "\<dots> \<le> L" by simp
  finally show ?thesis using assms(2) by simp
qed

lemma frames_floor: "nat \<lfloor>real L / real nc\<rfloor> = L div nc"
  by (metis floor_divide_of_nat_eq nat_int)

lemma frames_ceiling: "L div nc \<le> nat \<lceil>real L / real nc\<rceil>"
proof -
  have "\<lfloor>real L / real nc\<rfloor> \<le> \<lceil>real L / real nc\<rceil>" by (rule floor_le_ceiling)
  then have "nat \<lfloor>real L / real nc\<rfloor> \<le> nat \<lceil>real L / real nc\<rceil>" by (rule nat_mono)
  then show ?thesis by (simp add: frames_floor)
qed

lemma fillChannel_zeros:
  "fillChannel d nc (real (length d) / real nc) ch (replicate (length d div nc) 0) =
     map (\<lambda>i. real_of_int (sint (d ! (i * nc + ch))) / 32768) [0 ..< length d div nc]"
proof (rule nth_equalityI)
  show "length (fillChannel d nc (real (length d) / real nc) ch (replicate (length d div nc) 0)) =
        length (map (\<lambda>i. real_of_int (sint (d ! (i * nc + ch))) / 32768) [0 ..< length d div nc])"
    by (simp add: fillChannel_def fold_storeSample_length)
next
  fix j
  assume "j < length (fillChannel d nc (real (length d) / real nc) ch (replicate (length d div nc) 0))"
  then have j: "j < length d div nc"
    by (simp add: fillChannel_def fold_storeSample_length)
  then have "j < nat \<lceil>real (length d) / real nc\<rceil>"
    using frames_ceiling [of "length d" nc] by simp
  then show "fillChannel d nc (real (length d) / real nc) ch (replicate (length d div nc) 0) ! j =
        map (\<lambda>i. real_of_int (sint (d ! (i * nc + ch))) / 32768) [0 ..< length d div nc] ! j"
    using j by (simp add: fillChannel_def fold_storeSample_nth)
qed

lemma supported_positive: "supported nc rate \<Longrightarrow> 0 < nc"
  by (simp add: supported_def)

lemma decodeAudioData_eq:
  "decodeAudioData data rate nc =
     (if odd (length data) then Inl RangeError
      else if \<not> supported nc rate \<or> length data div 2 div nc = 0 then Inl NotSupportedError
      else Inr \<lparr>sampleRate = rate, channelData = decoded (int16View data) nc\<rparr>)"
proof (cases "odd (length data)")
  case True
  then show ?thesis by (simp add: decodeAudioData_def newInt16Array_def)
next
  case False
  define d where "d = int16View data"
  have len: "length d = length data div 2" by (simp add: d_def length_int16View)
  have view: "newInt16Array data = Inr d" using False by (simp add: newInt16Array_def d_def)
  have dec: "decodeAudioData data rate nc =
      (case createBuffer nc (real (length d) / real nc) rate of
         Inl e \<Rightarrow> Inl e
       | Inr buffer \<Rightarrow>
           Inr (buffer\<lparr>channelData :=
                  map (\<lambda>channel. fillChannel d nc (real (length d) / real nc) channel
                                    (channelData buffer ! channel))
                      [0 ..< nc]\<rparr>))"
    by (simp add: decodeAudioData_def view Let_def)
  show ?thesis
  proof (cases "\<not> supported nc rate \<or> length d div nc = 0")
    case True
    have cb: "createBuffer nc (real (length d) / real nc) rate = Inl NotSupportedError"
      using True by (auto simp add: createBuffer_def frames_floor)
    show ?thesis
      unfolding dec cb using False True len by simp
  next
    case nz: False
    have cb: "createBuffer nc (real (length d) / real nc) rate =
        Inr \<lparr>sampleRate = rate, channelData = replicate nc (replicate (length d div nc) 0)\<rparr>"
      using nz by (simp add: createBuffer_def frames_floor)
    have fill: "map (\<lambda>channel. fillChannel d nc (real (length d) / real nc) channel
                 (replicate nc (replicate (length d div nc) 0) ! channel)) [0 ..< nc]
          = decoded d nc"
      unfolding decoded_def by (rule map_cong [OF refl]) (simp add: fillChannel_zeros)
    show ?thesis
      unfolding dec cb using False nz len fill by (simp add: d_def)
  qed
qed

lemma supported_program: "supported (Suc 0) 24000"
  by (simp add: supported_def maxChannels_def minSampleRate_def maxSampleRate_def)

lemma uint_view: "uint (push_bit 8 (ucast (hi::byte)) OR ucast (lo::byte) :: int16) = uint lo + 256 * uint hi"
proof -
  have eq: "push_bit 8 (ucast hi) OR ucast lo = (push_bit 8 (ucast hi) + ucast lo :: int16)"
    by (rule disjunctive_add_eq_or [symmetric], rule bit_word_eqI)
       (auto simp add: bit_simps dest: bit_imp_le_length)
  have lo: "uint lo < 256" using uint_bounded [of lo] by simp
  have hi: "uint hi < 256" using uint_bounded [of hi] by simp
  have lo0: "0 \<le> uint lo" and hi0: "0 \<le> uint hi" by simp_all
  have a: "uint (ucast lo :: int16) = uint lo"
    using lo lo0 by (simp add: unsigned_ucast_eq take_bit_eq_mod)
  have a': "uint (ucast hi :: int16) = uint hi"
    using hi hi0 by (simp add: unsigned_ucast_eq take_bit_eq_mod)
  have b: "uint (push_bit 8 (ucast hi :: int16)) = 256 * uint hi"
    using hi hi0 by (simp add: push_bit_eq_mult uint_word_ariths a')
  show ?thesis
    unfolding eq using lo hi lo0 hi0 by (simp add: uint_word_ariths a b)
qed

lemma sint_word_of_int16: "sint (word_of_int k :: int16) = (k + 32768) mod 65536 - 32768"
  by (simp add: sint_sbintrunc' signed_take_bit_eq_take_bit_shift take_bit_eq_mod)

lemma sint_view: "sint (push_bit 8 (ucast hi) OR ucast lo :: int16) = le_int16 lo hi"
proof -
  define w :: int16 where "w = push_bit 8 (ucast hi) OR ucast lo"
  have u: "uint w = uint lo + 256 * uint hi" unfolding w_def by (rule uint_view)
  have "sint w = sint (word_of_int (uint w) :: int16)" by simp
  also have "\<dots> = (uint w + 32768) mod 65536 - 32768" by (rule sint_word_of_int16)
  also have "\<dots> = (if uint w < 32768 then uint w else uint w - 65536)"
  proof (cases "uint w < 32768")
    case True
    then show ?thesis using uint_ge_0 [of w] by (simp add: mod_pos_pos_trivial)
  next
    case False
    have "uint w + 32768 = uint w - 32768 + 65536" by simp
    then have "(uint w + 32768) mod 65536 = (uint w - 32768 + 65536) mod 65536" by (rule arg_cong)
    also have "\<dots> = (uint w - 32768) mod 65536" by (rule mod_add_self2)
    also have "\<dots> = uint w - 32768"
      using False uint_bounded [of w] by (simp add: mod_pos_pos_trivial)
    finally show ?thesis using False by simp
  qed
  finally have "sint w = (if uint w < 32768 then uint w else uint w - 65536)" .
  then show ?thesis by (simp add: le_int16_def u w_def [symmetric] Let_def)
qed

lemma js_trunc_bounds: "- 1 \<le> x \<Longrightarrow> x < 1 \<Longrightarrow> - 32768 \<le> js_trunc (x * 32768) \<and> js_trunc (x * 32768) < 32768"
  unfolding js_trunc_def by (auto simp add: le_floor_iff floor_less_iff ceiling_less_iff le_ceiling_iff) 

lemma js_trunc_error: "\<bar>real_of_int (js_trunc y) - y\<bar> < 1"
  unfolding js_trunc_def by (auto; linarith)

lemma sint_toInt16: "- 32768 \<le> js_trunc y \<Longrightarrow> js_trunc y < 32768 \<Longrightarrow> sint (toInt16 y) = js_trunc y"
  unfolding toInt16_def by (simp add: sint_word_of_int16)

lemma decoded_mono: "decoded d (Suc 0) = [map (\<lambda>w. real_of_int (sint w) / 32768) d]"
proof -
  have "map (\<lambda>i. real_of_int (sint (d ! i)) / 32768) [0 ..< length d]
        = map (\<lambda>w. real_of_int (sint w) / 32768) d"
    by (rule nth_equalityI) simp_all
  then show ?thesis by (simp add: decoded_def)
qed

lemma decode_encode:
  "s \<noteq> [] \<Longrightarrow> supported (Suc 0) rate \<Longrightarrow> decodeAudioData (encode s) rate 1 =
     Inr \<lparr>sampleRate = rate,
          channelData = [map (\<lambda>x. real_of_int (sint (toInt16 (x * 32768))) / 32768) s]\<rparr>"
  by (simp add: decodeAudioData_eq encode_def length_bufferBytes int16View_bufferBytes
        decoded_mono pcmInt16_def o_def)

lemma sample_round_trip:
  assumes "- 1 \<le> x" and "x < 1"
  shows "\<bar>real_of_int (sint (toInt16 (x * 32768))) / 32768 - x\<bar> < 1 / 32768"
proof -
  have "sint (toInt16 (x * 32768)) = js_trunc (x * 32768)"
    using js_trunc_bounds [OF assms] by (simp add: sint_toInt16)
  moreover have "\<bar>real_of_int (js_trunc (x * 32768)) - x * 32768\<bar> < 1"
    by (rule js_trunc_error)
  ultimately show ?thesis by (simp add: field_simps abs_less_iff)
qed

lemma le_int16_bytes: "le_int16 (ucast w) (ucast (drop_bit 8 w)) = sint (w::int16)"
proof -
  have "le_int16 (ucast w) (ucast (drop_bit 8 w))
        = sint (push_bit 8 (ucast (ucast (drop_bit 8 w) :: byte)) OR ucast (ucast w :: byte) :: int16)"
    by (rule sint_view [symmetric])
  then show ?thesis by (simp only: view_bytes)
qed

lemma frame_index:
  assumes "i < L div nc" and "ch < nc"
  shows "i * nc + ch < (L::nat)"
proof -
  have "Suc i \<le> L div nc" using assms(1) by simp
  then have "Suc i * nc \<le> L div nc * nc" by (rule mult_le_mono1)
  also have "\<dots> \<le> L" by simp
  finally show ?thesis using assms(2) by simp
qed


section \<open>Round trip of the codec\<close>

text \<open>
  Claim C4, as the code has it. For every non-empty array of samples in the range
  \<open>-1 \<le> x < 1\<close>, decoding the encoded bytes, at a sample rate the audio context
  supports, gives one channel with as many samples, each within \<open>1/32768\<close> of the
  sample encoded. (Outside that range the encoder wraps around, and the decoder rejects
  an empty buffer and a rate that is not supported.)
\<close>

theorem round_trip_in_range:
  assumes "s \<noteq> []" and "\<forall>x \<in> set s. - 1 \<le> x \<and> x < 1"
    and "minSampleRate \<le> rate" and "rate \<le> maxSampleRate"
  shows "roundTrips rate s"
proof -
  have rate: "supported (Suc 0) rate"
    using assms(3,4) by (simp add: supported_def maxChannels_def)
  have "list_all2 (\<lambda>y x. \<bar>y - x\<bar> \<le> 1 / 32768)
          (map (\<lambda>x. real_of_int (sint (toInt16 (x * 32768))) / 32768) s) s"
    unfolding list_all2_map1
  proof (rule list_all2_all_nthI)
    show "length s = length s" by simp
  next
    fix n assume "n < length s"
    then have "s ! n \<in> set s" by simp
    then have "- 1 \<le> s ! n" and "s ! n < 1" using assms(2) by auto
    then show "\<bar>real_of_int (sint (toInt16 (s ! n * 32768))) / 32768 - s ! n\<bar> \<le> 1 / 32768"
      using sample_round_trip [of "s ! n"] by simp
  qed
  then show ?thesis
    unfolding roundTrips_def decode_encode [OF assms(1) rate] by simp
qed

text \<open>The round trip at three samples inside the range, at the rate the program decodes at.\<close>

theorem round_trip_in_range_witness:
  "minSampleRate \<le> 24000 \<and> 24000 \<le> maxSampleRate \<and> roundTrips 24000 [0.5, - 0.25, 0.999]"
proof -
  have a: "[0.5, - 0.25, 0.999 :: real] \<noteq> []" by simp
  have b: "\<forall>x \<in> set [0.5, - 0.25, 0.999 :: real]. - 1 \<le> x \<and> x < 1" by simp
  have c: "minSampleRate \<le> 24000" by (simp add: minSampleRate_def)
  have d: "24000 \<le> maxSampleRate" by (simp add: maxSampleRate_def)
  from round_trip_in_range [OF a b c d] show ?thesis using c d by simp
qed

text \<open>
  The round trip as the claim states it, for any array, fails at the sample \<open>1.0\<close>,
  which comes back as \<open>-1.0\<close>, and at the empty array, which the decoder rejects.
\<close>

theorem round_trip_counterexample:
  "\<not> roundTrips 24000 [1] \<and> \<not> roundTrips 24000 []"
proof
  have "sint (toInt16 (1 * 32768)) = - 32768"
    by (simp add: toInt16_def js_trunc_def)
  then have "real_of_int (sint (toInt16 (1 * 32768))) = real_of_int (- 32768)"
    by (rule arg_cong)
  then have "(signed (toInt16 32768) :: real) = - 32768" by simp
  then have d: "decodeAudioData (encode [1]) 24000 1 =
      Inr \<lparr>sampleRate = 24000, channelData = [[- 1]]\<rparr>"
    using decode_encode [of "[1]" 24000] supported_program by simp
  show "\<not> roundTrips 24000 [1]"
    unfolding roundTrips_def d by simp
next
  have "encode [] = []" by (simp add: encode_def bufferBytes_def pcmInt16_def)
  then have d: "decodeAudioData (encode []) 24000 1 = Inl NotSupportedError"
    by (simp add: decodeAudioData_eq)
  show "\<not> roundTrips 24000 []"
    unfolding roundTrips_def d by simp
qed

section \<open>The encoder\<close>

text \<open>
  Claim C5, as the code has it. The encoder is total and gives two bytes for each
  sample: the little-endian two's-complement form of \<open>sample * 32768\<close> with its
  fraction dropped (towards zero) and then reduced modulo \<open>2^16\<close> into the int16
  range; a scaled value outside the range wraps around, it is not clamped.
\<close>

theorem encode_truncates_and_wraps:
  "length (encode s) = 2 * length s \<and>
   (\<forall>i < length s.
      le_int16 (encode s ! (2 * i)) (encode s ! (2 * i + 1))
        = (js_trunc (s ! i * 32768) + 32768) mod 65536 - 32768)"
proof (intro conjI allI impI)
  show "length (encode s) = 2 * length s"
    by (simp add: encode_def length_bufferBytes pcmInt16_def)
next
  fix i assume i: "i < length s"
  then have "i < length (pcmInt16 s)" by (simp add: pcmInt16_def)
  then have "le_int16 (encode s ! (2 * i)) (encode s ! (2 * i + 1)) = sint (pcmInt16 s ! i)"
    unfolding encode_def using bufferBytes_nth [of i "pcmInt16 s"] by (simp only: le_int16_bytes)
  also have "pcmInt16 s ! i = word_of_int (js_trunc (s ! i * 32768))"
    using i by (simp add: pcmInt16_def toInt16_def)
  finally show "le_int16 (encode s ! (2 * i)) (encode s ! (2 * i + 1))
        = (js_trunc (s ! i * 32768) + 32768) mod 65536 - 32768"
    by (simp only: sint_word_of_int16)
qed

text \<open>The sample \<open>1.0\<close> becomes \<open>-32768\<close>, the sample \<open>0.5\<close> becomes \<open>16384\<close>.\<close>

theorem encode_truncates_and_wraps_witness:
  "length (encode [1, 1 / 2]) = 4 \<and>
   le_int16 (encode [1, 1 / 2] ! 0) (encode [1, 1 / 2] ! 1) = - 32768 \<and>
   le_int16 (encode [1, 1 / 2] ! 2) (encode [1, 1 / 2] ! 3) = 16384"
  using encode_truncates_and_wraps [of "[1, 1 / 2]"]
        encode_truncates_and_wraps [of "[1, 1 / 2]", THEN conjunct2, THEN spec, of 0]
        encode_truncates_and_wraps [of "[1, 1 / 2]", THEN conjunct2, THEN spec, of 1]
  by (simp add: js_trunc_def)

text \<open>
  The encoder differs from rounding with clamping at the sample \<open>1.0\<close> (wrapped to
  \<open>-32768\<close>, not clamped to \<open>32767\<close>) and at the sample \<open>0.75/32768\<close>
  (truncated to 0, not rounded to 1).
\<close>

theorem encode_counterexample:
  "encode [1] \<noteq> encode_spec [1] \<and> encode [3 / 131072] \<noteq> encode_spec [3 / 131072]"
  by (simp add: encode_def encode_spec_def encode_spec_int16_def bufferBytes_def pcmInt16_def
        int16Bytes_def toInt16_def js_trunc_def round_def)


section \<open>The decoder\<close>

text \<open>
  Claim C6, as the code has it. Decoding fails with a \<open>RangeError\<close> exactly when the
  byte length of the buffer is odd (the 16-bit view is refused), and with a
  \<open>NotSupportedError\<close> exactly when the length is even and the buffer cannot be
  created: the channel count or the rate is not one the audio context supports, or the
  bytes hold less than one whole frame (the empty buffer is refused). It fails in no
  other case. For an even length with at least one frame, a supported channel count and
  a supported rate, it returns a buffer with, per channel, \<open>length div (2 * channels)\<close>
  samples: the little-endian int16 values, de-interleaved, divided by 32768. Bytes
  after the last whole frame are dropped.
\<close>

theorem decode_fails_iff:
  "(decodeAudioData data rate nc = Inl RangeError \<longleftrightarrow> odd (length data)) \<and>
   (decodeAudioData data rate nc = Inl NotSupportedError
      \<longleftrightarrow> even (length data) \<and> (length data < 2 * nc \<or> \<not> supported nc rate)) \<and>
   ((\<exists>e. decodeAudioData data rate nc = Inl e)
      \<longleftrightarrow> odd (length data) \<or> length data < 2 * nc \<or> \<not> supported nc rate) \<and>
   (even (length data) \<and> 2 * nc \<le> length data \<and> supported nc rate \<longrightarrow>
      (\<exists>frame. decodeAudioData data rate nc = Inr frame \<and>
         sampleRate frame = rate \<and> length (channelData frame) = nc \<and>
         (\<forall>ch < nc. length (channelData frame ! ch) = length data div (2 * nc) \<and>
            (\<forall>i < length data div (2 * nc).
               channelData frame ! ch ! i =
                 real_of_int (le_int16 (data ! (2 * (i * nc + ch)))
                                       (data ! (2 * (i * nc + ch) + 1))) / 32768))))"
proof -
  have small: "length data div 2 div nc = 0 \<longleftrightarrow> length data < 2 * nc" if "0 < nc"
    using that by (simp add: div_mult2_eq [symmetric] div_eq_0_iff)
  have refused: "(\<not> supported nc rate \<or> length data div 2 div nc = 0)
      \<longleftrightarrow> (length data < 2 * nc \<or> \<not> supported nc rate)"
  proof (cases "supported nc rate")
    case True
    then have "0 < nc" by (rule supported_positive)
    then show ?thesis using small True by simp
  next
    case False
    then show ?thesis by simp
  qed
  have range: "decodeAudioData data rate nc = Inl RangeError \<longleftrightarrow> odd (length data)"
    by (simp add: decodeAudioData_eq)
  have unsupported: "decodeAudioData data rate nc = Inl NotSupportedError
      \<longleftrightarrow> even (length data) \<and> (length data < 2 * nc \<or> \<not> supported nc rate)"
    using refused by (simp add: decodeAudioData_eq)
  have fails: "(\<exists>e. decodeAudioData data rate nc = Inl e)
      \<longleftrightarrow> odd (length data) \<or> length data < 2 * nc \<or> \<not> supported nc rate"
    using refused by (simp add: decodeAudioData_eq)
  have frames: "\<exists>frame. decodeAudioData data rate nc = Inr frame \<and>
         sampleRate frame = rate \<and> length (channelData frame) = nc \<and>
         (\<forall>ch < nc. length (channelData frame ! ch) = length data div (2 * nc) \<and>
            (\<forall>i < length data div (2 * nc).
               channelData frame ! ch ! i =
                 real_of_int (le_int16 (data ! (2 * (i * nc + ch)))
                                       (data ! (2 * (i * nc + ch) + 1))) / 32768))"
    if ok: "even (length data) \<and> 2 * nc \<le> length data \<and> supported nc rate"
  proof -
    have pos: "0 < nc" using ok supported_positive [of nc rate] by blast
    have F: "length data div (2 * nc) = length data div 2 div nc"
      by (simp add: div_mult2_eq)
    have nz: "\<not> (\<not> supported nc rate \<or> length data div 2 div nc = 0)"
      using ok refused by simp
    define d where "d = int16View data"
    have len: "length d = length data div 2" by (simp add: d_def length_int16View)
    have dec: "decodeAudioData data rate nc =
        Inr \<lparr>sampleRate = rate, channelData = decoded d nc\<rparr>"
      using ok nz by (simp add: decodeAudioData_eq d_def)
    have sample: "decoded d nc ! ch ! i =
        real_of_int (le_int16 (data ! (2 * (i * nc + ch))) (data ! (2 * (i * nc + ch) + 1))) / 32768"
      if "ch < nc" and "i < length data div (2 * nc)" for ch i
    proof -
      have i: "i < length d div nc" using that(2) by (simp add: F len)
      then have k: "i * nc + ch < length data div 2"
        using frame_index [of i "length d" nc ch] that(1) by (simp add: len)
      have "decoded d nc ! ch ! i = real_of_int (sint (d ! (i * nc + ch))) / 32768"
        using that(1) i by (simp add: decoded_def)
      also have "d ! (i * nc + ch) =
          push_bit 8 (ucast (data ! (2 * (i * nc + ch) + 1))) OR ucast (data ! (2 * (i * nc + ch)))"
        unfolding d_def using k by (rule int16View_nth)
      finally show ?thesis by (simp only: sint_view)
    qed
    show ?thesis
    proof (intro exI conjI allI impI)
      show "decodeAudioData data rate nc = Inr \<lparr>sampleRate = rate, channelData = decoded d nc\<rparr>"
        by (rule dec)
    next
      fix ch assume "ch < nc"
      then show "length (channelData \<lparr>sampleRate = rate, channelData = decoded d nc\<rparr> ! ch)
          = length data div (2 * nc)"
        by (simp add: decoded_def F len)
    next
      fix ch i assume "ch < nc" and "i < length data div (2 * nc)"
      then show "channelData \<lparr>sampleRate = rate, channelData = decoded d nc\<rparr> ! ch ! i =
          real_of_int (le_int16 (data ! (2 * (i * nc + ch))) (data ! (2 * (i * nc + ch) + 1))) / 32768"
        using sample by simp
    qed (simp_all add: decoded_def)
  qed
  show ?thesis using range unsupported fails frames by blast
qed

text \<open>
  One sample, \<open>-32768\<close>, decodes to \<open>-1.0\<close> at the rate and channel count the program
  uses; three bytes are refused with a \<open>RangeError\<close>; two bytes at a rate of 2999 Hz,
  and 66 bytes on 33 channels, are refused with a \<open>NotSupportedError\<close>.
\<close>

theorem decode_fails_iff_witness:
  "even (length [0, 128 :: byte]) \<and> 2 * 1 \<le> length [0, 128 :: byte] \<and> supported 1 24000 \<and>
   (\<exists>frame. decodeAudioData [0, 128] 24000 1 = Inr frame \<and> channelData frame ! 0 ! 0 = - 1) \<and>
   odd (length [0, 128, 7 :: byte]) \<and> decodeAudioData [0, 128, 7] 24000 1 = Inl RangeError \<and>
   \<not> supported 1 2999 \<and> decodeAudioData [0, 128] 2999 1 = Inl NotSupportedError \<and>
   \<not> supported 33 24000 \<and> decodeAudioData (replicate 66 0) 24000 33 = Inl NotSupportedError"
proof -
  have b: "even (length [0, 128 :: byte]) \<and> 2 * 1 \<le> length [0, 128 :: byte] \<and> supported 1 24000"
    using supported_program by simp
  have v: "le_int16 (0 :: byte) (128 :: byte) = - 32768" by (simp add: le_int16_def)
  from decode_fails_iff [of "[0, 128]" 24000 1, THEN conjunct2, THEN conjunct2, THEN conjunct2,
         THEN mp, OF b]
  have one: "\<exists>frame. decodeAudioData [0, 128] 24000 1 = Inr frame \<and> channelData frame ! 0 ! 0 = - 1"
    using v by auto
  have c: "odd (length [0, 128, 7 :: byte])" by simp
  from decode_fails_iff [of "[0, 128, 7]" 24000 1, THEN conjunct1] c
  have three: "decodeAudioData [0, 128, 7] 24000 1 = Inl RangeError" by blast
  have r: "\<not> supported 1 2999" by (simp add: supported_def minSampleRate_def)
  from decode_fails_iff [of "[0, 128]" 2999 1, THEN conjunct2, THEN conjunct1] r
  have slow: "decodeAudioData [0, 128] 2999 1 = Inl NotSupportedError" by simp
  have w: "\<not> supported 33 24000" by (simp add: supported_def maxChannels_def)
  from decode_fails_iff [of "replicate 66 0" 24000 33, THEN conjunct2, THEN conjunct1] w
  have wide: "decodeAudioData (replicate 66 0) 24000 33 = Inl NotSupportedError" by simp
  show ?thesis using b one c three r slow w wide by blast
qed

text \<open>
  Six bytes on two channels are not a whole number of frames, and are decoded (one
  frame, the last two bytes dropped); no bytes on one channel are a whole number of
  frames, and are refused.
\<close>

theorem decode_counterexample:
  "\<not> 2 * 2 dvd length [1, 2, 3, 4, 5, 6 :: byte] \<and>
   decodeAudioData [1, 2, 3, 4, 5, 6] 24000 2 =
     Inr \<lparr>sampleRate = 24000, channelData = [[513 / 32768], [1027 / 32768]]\<rparr> \<and>
   2 * 1 dvd length ([] :: byte list) \<and>
   decodeAudioData [] 24000 1 = Inl NotSupportedError"
proof (intro conjI)
  have six: "length [1, 2, 3, 4, 5, 6 :: byte] = 6" by simp
  show "\<not> 2 * 2 dvd length [1, 2, 3, 4, 5, 6 :: byte]" unfolding six by simp
qed (simp_all add: decodeAudioData_eq decoded_def upt_rec supported_def maxChannels_def
       minSampleRate_def maxSampleRate_def)

section \<open>Playback scheduling\<close>

lemma starts_append: "starts (a @ b) = starts a @ starts b"
  by (induction a rule: starts.induct) simp_all

lemma noOverlap_append:
  "noOverlap lo (a @ b) \<longleftrightarrow> noOverlap lo a \<and> noOverlap (endOf lo a) b"
  by (induction lo a rule: noOverlap.induct) simp_all

lemma endOf_append: "endOf lo (a @ b) = endOf (endOf lo a) b"
  by (induction lo a rule: endOf.induct) simp_all

lemma scheduled_seq:
  assumes "scheduled v (v1, e1)" and "scheduled v1 (v2, e2)"
  shows "scheduled v (v2, e1 @ e2)"
  using assms by (simp add: scheduled_def starts_append noOverlap_append endOf_append)

lemma playAudio_scheduled: "scheduled v (playAudio now bytes v)"
  by (simp add: scheduled_def playAudio_def Let_def split: sum.split)

lemma starts_callbacks [simp]: "starts (Callback c # es) = starts es"
  by simp

lemma handlePart_scheduled: "scheduled v (handlePart now p v)"
proof (cases "inlineData p")
  case None
  then show ?thesis by (simp add: handlePart_def scheduled_def)
next
  case (Some bytes)
  obtain v' es where pa: "playAudio now bytes (v\<lparr>isSpeaking := True\<rparr>) = (v', es)"
    by (cases "playAudio now bytes (v\<lparr>isSpeaking := True\<rparr>)")
  have "scheduled (v\<lparr>isSpeaking := True\<rparr>) (v', es)"
    using playAudio_scheduled [of "v\<lparr>isSpeaking := True\<rparr>" now bytes] pa by simp
  then show ?thesis
    using Some pa by (simp add: handlePart_def scheduled_def starts_append)
qed

lemma handleParts_scheduled: "scheduled v (handleParts now ps v)"
proof (induction ps arbitrary: v)
  case Nil
  show ?case by (simp add: scheduled_def)
next
  case (Cons p ps)
  obtain v1 e1 where a: "handlePart now p v = (v1, e1)" by (cases "handlePart now p v")
  obtain v2 e2 where b: "handleParts now ps v1 = (v2, e2)" by (cases "handleParts now ps v1")
  have "scheduled v (v1, e1)" using handlePart_scheduled [of v now p] a by simp
  moreover have "scheduled v1 (v2, e2)" using Cons [of v1] b by simp
  ultimately have "scheduled v (v2, e1 @ e2)" by (rule scheduled_seq)
  then show ?case by (simp add: a b)
qed

lemma handleMessage_scheduled:
  assumes "\<not> interrupted m"
  shows "scheduled v (handleMessage now m v)"
proof (cases "turnComplete m")
  case True
  then show ?thesis using assms by (simp add: handleMessage_def scheduled_def)
next
  case False
  show ?thesis
  proof (cases "parts m")
    case None
    then show ?thesis using assms False by (simp add: handleMessage_def scheduled_def)
  next
    case (Some ps)
    then show ?thesis using assms False by (simp add: handleMessage_def handleParts_scheduled)
  qed
qed

lemma receiveAll_scheduled:
  "\<forall>(now, m) \<in> set ms. \<not> interrupted m \<Longrightarrow> scheduled v (receiveAll ms v)"
proof (induction ms arbitrary: v)
  case Nil
  show ?case by (simp add: scheduled_def)
next
  case (Cons a ms)
  obtain now m where am: "a = (now, m)" by (cases a)
  obtain v1 e1 where x: "handleMessage now m v = (v1, e1)" by (cases "handleMessage now m v")
  obtain v2 e2 where y: "receiveAll ms v1 = (v2, e2)" by (cases "receiveAll ms v1")
  have "scheduled v (v1, e1)" using handleMessage_scheduled [of m v now] Cons.prems am x by simp
  moreover have "scheduled v1 (v2, e2)" using Cons.IH [of v1] Cons.prems y by simp
  ultimately have "scheduled v (v2, e1 @ e2)" by (rule scheduled_seq)
  then show ?case by (simp add: am x y)
qed

lemma noOverlap_nth:
  "noOverlap lo sch \<Longrightarrow> Suc i < length sch \<Longrightarrow> fst (sch ! i) + snd (sch ! i) \<le> fst (sch ! Suc i)"
proof (induction lo sch arbitrary: i rule: noOverlap.induct)
  case (1 lo)
  then show ?case by simp
next
  case (2 lo start d sch)
  show ?case
  proof (cases i)
    case 0
    then show ?thesis using 2 by (cases sch) auto
  next
    case (Suc j)
    then show ?thesis using 2 by simp
  qed
qed


text \<open>
  Claim C3. A frame that decodes is scheduled to start at the larger of
  \<open>nextStartTime\<close> and the audio clock's reading, and \<open>nextStartTime\<close> becomes
  that start plus the frame's duration. Hence, for any sequence of messages that
  enqueue frames (none of them an interruption, which clears the queue), each source
  started begins no earlier than the start of the one before it plus that one's
  duration.
\<close>

theorem playback_never_overlaps:
  "(decodeAudioData bytes 24000 1 = Inr buf \<longrightarrow>
      starts (snd (playAudio now bytes v)) = [(max (nextStartTime v) now, duration buf)] \<and>
      nextStartTime (fst (playAudio now bytes v)) = max (nextStartTime v) now + duration buf) \<and>
   ((\<forall>(t, m) \<in> set ms. \<not> interrupted m) \<longrightarrow>
      (\<forall>i. Suc i < length (starts (snd (receiveAll ms v))) \<longrightarrow>
           fst (starts (snd (receiveAll ms v)) ! i) + snd (starts (snd (receiveAll ms v)) ! i)
             \<le> fst (starts (snd (receiveAll ms v)) ! Suc i)))"
proof (intro conjI impI allI)
  assume "decodeAudioData bytes 24000 1 = Inr buf"
  then show "starts (snd (playAudio now bytes v)) = [(max (nextStartTime v) now, duration buf)]"
    and "nextStartTime (fst (playAudio now bytes v)) = max (nextStartTime v) now + duration buf"
    by (simp_all add: playAudio_def Let_def)
next
  fix i
  assume "\<forall>(t, m) \<in> set ms. \<not> interrupted m"
    and i: "Suc i < length (starts (snd (receiveAll ms v)))"
  then have "scheduled v (receiveAll ms v)" by (simp add: receiveAll_scheduled)
  then have "noOverlap (nextStartTime v) (starts (snd (receiveAll ms v)))"
    by (simp add: scheduled_def)
  then show "fst (starts (snd (receiveAll ms v)) ! i) + snd (starts (snd (receiveAll ms v)) ! i)
             \<le> fst (starts (snd (receiveAll ms v)) ! Suc i)"
    using i by (rule noOverlap_nth)
qed


text \<open>
  Two messages with two frames of audio each, the second arriving before the first has
  played: the second source starts when the first ends.
\<close>

theorem playback_never_overlaps_witness:
  "decodeAudioData [0, 0, 0, 0] 24000 1 = Inr \<lparr>sampleRate = 24000, channelData = [[0, 0]]\<rparr> \<and>
   starts (snd (playAudio 0 [0, 0, 0, 0] freshVoice)) = [(0, 1 / 12000)] \<and>
   \<not> interrupted (audioMessage [0, 0, 0, 0]) \<and> \<not> interrupted (audioMessage [1, 0, 2, 0]) \<and>
   starts (snd (receiveAll [(0, audioMessage [0, 0, 0, 0]), (1 / 100000, audioMessage [1, 0, 2, 0])]
                  freshVoice))
     = [(0, 1 / 12000), (1 / 12000, 1 / 12000)] \<and>
   (0 :: real) + 1 / 12000 \<le> 1 / 12000"
proof -
  let ?ms = "[(0 :: real, audioMessage [0, 0, 0, 0]), (1 / 100000, audioMessage [1, 0, 2, 0])]"
  let ?buf = "\<lparr>sampleRate = 24000, channelData = [[0, 0 :: real]]\<rparr>"
  have quiet: "\<forall>(t, m) \<in> set ?ms. \<not> interrupted m"
    by (simp add: audioMessage_def)
  have d: "decodeAudioData bs 24000 (Suc 0) =
      Inr \<lparr>sampleRate = 24000, channelData = decoded (int16View bs) (Suc 0)\<rparr>"
    if "length bs = 4" for bs :: "byte list"
    using that supported_program by (simp add: decodeAudioData_eq)
  have silence: "decodeAudioData [0, 0, 0, 0] 24000 1 = Inr ?buf"
    by (simp add: d decoded_mono)
  have sch: "starts (snd (receiveAll ?ms freshVoice)) = [(0, 1 / 12000), (1 / 12000, 1 / 12000)]"
    by (simp add: audioMessage_def handleMessage_def handlePart_def playAudio_def d
          duration_def decoded_mono freshVoice_def voiceWith_def Let_def)
  note inst = playback_never_overlaps [of "[0, 0, 0, 0]" ?buf 0 freshVoice ?ms]
  from inst [THEN conjunct1, THEN mp, OF silence]
  have one: "starts (snd (playAudio 0 [0, 0, 0, 0] freshVoice)) = [(0, 1 / 12000)]"
    by (simp add: duration_def freshVoice_def voiceWith_def)
  from inst [THEN conjunct2, THEN mp, OF quiet, THEN spec, of 0]
  have "fst (starts (snd (receiveAll ?ms freshVoice)) ! 0)
          + snd (starts (snd (receiveAll ?ms freshVoice)) ! 0)
        \<le> fst (starts (snd (receiveAll ?ms freshVoice)) ! Suc 0)"
    unfolding sch by simp
  then have "(0 :: real) + 1 / 12000 \<le> 1 / 12000" unfolding sch by simp
  moreover have "\<not> interrupted (audioMessage [0, 0, 0, 0])"
    and "\<not> interrupted (audioMessage [1, 0, 2, 0])"
    by (simp_all add: audioMessage_def)
  ultimately show ?thesis using sch silence one by blast
qed

section \<open>Interruption\<close>

text \<open>
  Claim C2. When a message carries the \<open>interrupted\<close> flag, the session first does
  exactly what \<open>clearAudio\<close> does: it stops every source that was scheduled, empties
  the set of sources and sets \<open>nextStartTime\<close> to 0; the \<open>onInterrupted\<close> callback is
  the last thing it does, once, and the state the session is in when the callback runs
  has no source left.
\<close>

theorem interrupted_clears_first:
  assumes "interrupted m" and "handleMessage now m v = (v', es)"
  shows "activeSources v' = [] \<and> nextStartTime v' = 0 \<and>
         (\<exists>pre. es = pre @ [Callback OnInterrupted] \<and> clearAudio v = (v', pre) \<and>
                Callback OnInterrupted \<notin> set pre \<and>
                (\<forall>source \<in> set (activeSources v). SourceStop source \<in> set pre))"
  using assms by (auto simp add: handleMessage_def clearAudio_def)


text \<open>An interruption while two sources are queued and the tutor is speaking.\<close>

theorem interrupted_clears_first_witness:
  "interrupted interruptedMessage \<and>
   handleMessage 5 interruptedMessage busyVoice =
     (busyVoice\<lparr>nextStartTime := 0, isSpeaking := False, activeSources := []\<rparr>,
      [SourceStop 0, SourceStop 1, Callback OnSpeakingStop, Callback OnInterrupted]) \<and>
   activeSources (busyVoice\<lparr>nextStartTime := 0, isSpeaking := False, activeSources := []\<rparr>) = []"
proof -
  have a: "interrupted interruptedMessage" by (simp add: interruptedMessage_def)
  have b: "handleMessage 5 interruptedMessage busyVoice =
     (busyVoice\<lparr>nextStartTime := 0, isSpeaking := False, activeSources := []\<rparr>,
      [SourceStop 0, SourceStop 1, Callback OnSpeakingStop, Callback OnInterrupted])"
    by (simp add: handleMessage_def interruptedMessage_def clearAudio_def busyVoice_def)
  from interrupted_clears_first [OF a b]
  have "activeSources (busyVoice\<lparr>nextStartTime := 0, isSpeaking := False, activeSources := []\<rparr>) = []"
    by blast
  then show ?thesis using a b by blast
qed

section \<open>Voice activity detection\<close>

lemma rms_above_threshold:
  "rms inputData > VAD_THRESHOLD \<longleftrightarrow>
     stridedSquares inputData / (real (length inputData) / 4) > 0.0004"
proof -
  have "sqrt 0.0004 = (0.02::real)"
    by (rule real_sqrt_unique) (simp_all add: power2_eq_square)
  then have T: "VAD_THRESHOLD = sqrt 0.0004" by (simp add: VAD_THRESHOLD_def)
  show ?thesis unfolding rms_def T by (rule real_sqrt_less_iff)
qed

lemma vadCheck_code [code]:
  "vadCheck now inputData v =
     (if stridedSquares inputData / (real (length inputData) / 4) > 0.0004 then
        (if now - lastActivityTime v > 500
         then (v\<lparr>lastActivityTime := now\<rparr>, [Callback OnUserActivity])
         else (v, []))
      else (v, []))"
  by (simp only: vadCheck_def rms_above_threshold)

lemma onaudioprocess_live:
  assumes "\<not> stopped v" and "\<not> muted v"
  shows "onaudioprocess now f v =
     (if rms f > VAD_THRESHOLD \<and> now - lastActivityTime v > 500
      then (v\<lparr>lastActivityTime := now\<rparr>,
            [Callback OnUserActivity, SendRealtimeInput (encode f)])
      else (v, [SendRealtimeInput (encode f)]))"
  using assms by (simp add: onaudioprocess_def vadCheck_def)

lemma activityCount_append: "activityCount (a @ b) = activityCount a + activityCount b"
  by (simp add: activityCount_def)

lemma captureAll_throttled:
  assumes "\<not> stopped v" and "\<not> muted v"
    and "\<forall>(t, f) \<in> set fs. t - lastActivityTime v \<le> 500"
  shows "activityCount (snd (captureAll fs v)) = 0"
  using assms
proof (induction fs arbitrary: v)
  case Nil
  show ?case by (simp add: activityCount_def)
next
  case (Cons a fs)
  obtain t f where a: "a = (t, f)" by (cases a)
  have quiet: "onaudioprocess t f v = (v, [SendRealtimeInput (encode f)])"
    using Cons.prems a by (simp add: onaudioprocess_live)
  have "activityCount (snd (captureAll fs v)) = 0"
    using Cons.IH [of v] Cons.prems by simp
  then show ?case
    by (simp add: a quiet activityCount_append split_beta) (simp add: activityCount_def)
qed

lemma captureAll_silent: "stopped v \<or> muted v \<Longrightarrow> captureAll fs v = (v, [])"
  by (induction fs) (auto simp add: onaudioprocess_def)

lemma loud_frame: "rms [1, 0, 0, 0] > VAD_THRESHOLD"
  by (simp add: rms_above_threshold)

lemma activityTimes_spec:
  assumes "\<not> stopped v" and "\<not> muted v"
  shows "activityTimes fs v = vadSpec (lastActivityTime v) fs"
  using assms
proof (induction fs arbitrary: v)
  case Nil
  show ?case by simp
next
  case (Cons a fs)
  obtain t f where a: "a = (t, f)" by (cases a)
  show ?case
  proof (cases "rms f > VAD_THRESHOLD \<and> t - lastActivityTime v > 500")
    case True
    have step: "onaudioprocess t f v =
        (v\<lparr>lastActivityTime := t\<rparr>, [Callback OnUserActivity, SendRealtimeInput (encode f)])"
      using Cons.prems True by (simp add: onaudioprocess_live)
    have "activityTimes fs (v\<lparr>lastActivityTime := t\<rparr>) = vadSpec t fs"
      using Cons.IH [of "v\<lparr>lastActivityTime := t\<rparr>"] Cons.prems by simp
    then show ?thesis using True by (simp add: a step)
  next
    case False
    have step: "onaudioprocess t f v = (v, [SendRealtimeInput (encode f)])"
      using Cons.prems False by (simp add: onaudioprocess_live)
    have "activityTimes fs v = vadSpec (lastActivityTime v) fs"
      using Cons.IH [of v] Cons.prems by simp
    then show ?thesis using False by (auto simp add: a step)
  qed
qed

lemma activityCount_times:
  assumes "\<not> stopped v" and "\<not> muted v"
  shows "activityCount (snd (captureAll fs v)) = length (activityTimes fs v)"
  using assms
proof (induction fs arbitrary: v)
  case Nil
  show ?case by (simp add: activityCount_def)
next
  case (Cons a fs)
  obtain t f where a: "a = (t, f)" by (cases a)
  show ?case
  proof (cases "rms f > VAD_THRESHOLD \<and> t - lastActivityTime v > 500")
    case True
    have step: "onaudioprocess t f v =
        (v\<lparr>lastActivityTime := t\<rparr>, [Callback OnUserActivity, SendRealtimeInput (encode f)])"
      using Cons.prems True by (simp add: onaudioprocess_live)
    have "activityCount (snd (captureAll fs (v\<lparr>lastActivityTime := t\<rparr>)))
        = length (activityTimes fs (v\<lparr>lastActivityTime := t\<rparr>))"
      using Cons.IH [of "v\<lparr>lastActivityTime := t\<rparr>"] Cons.prems by simp
    then show ?thesis
      by (simp add: a step activityCount_append split_beta) (simp add: activityCount_def)
  next
    case False
    have step: "onaudioprocess t f v = (v, [SendRealtimeInput (encode f)])"
      using Cons.prems False by (simp add: onaudioprocess_live)
    have "activityCount (snd (captureAll fs v)) = length (activityTimes fs v)"
      using Cons.IH [of v] Cons.prems by simp
    then show ?thesis
      by (simp add: a step activityCount_append split_beta) (simp add: activityCount_def)
  qed
qed

lemma vadSpec_spaced: "spaced lastTime (vadSpec lastTime fs)"
proof (induction fs arbitrary: lastTime)
  case Nil
  show ?case by simp
next
  case (Cons a fs)
  obtain t f where a: "a = (t, f)" by (cases a)
  show ?case using Cons [of t] Cons [of lastTime] by (simp add: a)
qed

text \<open>
  Claim C7, as the code has it. While the session is neither stopped nor muted, a
  captured frame raises \<open>onUserActivity\<close> exactly when its strided RMS exceeds 0.02
  and more than 500 ms have passed since the last one raised: the callback changes
  \<open>lastActivityTime\<close> when it raises the event, to the time of that frame, and at no
  other time, so that over any sequence of frames the events raised are those of the
  debounce \<open>vadSpec\<close>, each more than 500 ms after the one before it.
  (\<open>lastActivityTime\<close> starts at 0 and \<open>Date.now()\<close> is far beyond 500, so the
  first loud frame always raises one.) Hence loud frames that all fall within 100 ms of
  a first loud frame raise it once in all, the twenty of the claim included, and a loud
  frame, a gap of 600 ms and another loud frame raise it twice.
\<close>

theorem vad_debounce:
  assumes "\<not> stopped v" and "\<not> muted v"
  shows "(Callback OnUserActivity \<in> set (snd (onaudioprocess now f v))
            \<longleftrightarrow> rms f > VAD_THRESHOLD \<and> now - lastActivityTime v > 500) \<and>
         fst (onaudioprocess now f v) =
           (if rms f > VAD_THRESHOLD \<and> now - lastActivityTime v > 500
            then v\<lparr>lastActivityTime := now\<rparr> else v) \<and>
         activityTimes fs v = vadSpec (lastActivityTime v) fs \<and>
         spaced (lastActivityTime v) (activityTimes fs v) \<and>
         activityCount (snd (captureAll fs v)) = length (activityTimes fs v) \<and>
         (rms f0 > VAD_THRESHOLD \<and> t0 - lastActivityTime v > 500 \<and>
          (\<forall>(t, f) \<in> set rest. rms f > VAD_THRESHOLD \<and> t0 \<le> t \<and> t \<le> t0 + 100)
            \<longrightarrow> activityCount (snd (captureAll ((t0, f0) # rest) v)) = 1) \<and>
         (rms f1 > VAD_THRESHOLD \<and> rms f2 > VAD_THRESHOLD \<and> t1 - lastActivityTime v > 500
            \<longrightarrow> activityCount (snd (captureAll [(t1, f1), (t1 + 600, f2)] v)) = 2)"
proof (intro conjI impI)
  show "Callback OnUserActivity \<in> set (snd (onaudioprocess now f v))
            \<longleftrightarrow> rms f > VAD_THRESHOLD \<and> now - lastActivityTime v > 500"
    using assms by (simp add: onaudioprocess_live)
next
  show "fst (onaudioprocess now f v) =
           (if rms f > VAD_THRESHOLD \<and> now - lastActivityTime v > 500
            then v\<lparr>lastActivityTime := now\<rparr> else v)"
    using assms by (simp add: onaudioprocess_live)
next
  show times: "activityTimes fs v = vadSpec (lastActivityTime v) fs"
    using assms by (rule activityTimes_spec)
  show "spaced (lastActivityTime v) (activityTimes fs v)"
    unfolding times by (rule vadSpec_spaced)
next
  show "activityCount (snd (captureAll fs v)) = length (activityTimes fs v)"
    using assms by (rule activityCount_times)
next
  assume h: "rms f0 > VAD_THRESHOLD \<and> t0 - lastActivityTime v > 500 \<and>
          (\<forall>(t, f) \<in> set rest. rms f > VAD_THRESHOLD \<and> t0 \<le> t \<and> t \<le> t0 + 100)"
  define v1 where "v1 = v\<lparr>lastActivityTime := t0\<rparr>"
  have first: "onaudioprocess t0 f0 v =
      (v1, [Callback OnUserActivity, SendRealtimeInput (encode f0)])"
    using assms h by (simp add: onaudioprocess_live v1_def)
  have "\<forall>(t, f) \<in> set rest. t - lastActivityTime v1 \<le> 500"
    using h by (auto simp add: v1_def)
  then have "activityCount (snd (captureAll rest v1)) = 0"
    using assms by (intro captureAll_throttled) (simp_all add: v1_def)
  then show "activityCount (snd (captureAll ((t0, f0) # rest) v)) = 1"
    by (simp add: first activityCount_append split_beta) (simp add: activityCount_def)
next
  assume h: "rms f1 > VAD_THRESHOLD \<and> rms f2 > VAD_THRESHOLD \<and> t1 - lastActivityTime v > 500"
  then show "activityCount (snd (captureAll [(t1, f1), (t1 + 600, f2)] v)) = 2"
    using assms by (simp add: onaudioprocess_live activityCount_def)
qed

text \<open>
  Twenty loud frames 5 ms apart; two loud frames 600 ms apart; three loud frames 300 ms
  apart, of which the first and the third raise the event and leave the time of the
  third as the last.
\<close>

theorem vad_debounce_witness:
  "activityCount (snd (captureAll
      ((1700000000000, [1, 0, 0, 0]) # map (\<lambda>k. (1700000000000 + 5 * int k, [1, 0, 0, 0])) [1 ..< 20])
      freshVoice)) = 1 \<and>
   activityCount (snd (captureAll
      [(1700000000000, [1, 0, 0, 0]), (1700000000000 + 600, [1, 0, 0, 0])] freshVoice)) = 2 \<and>
   Callback OnUserActivity \<in> set (snd (onaudioprocess 1700000000000 [1, 0, 0, 0] freshVoice)) \<and>
   lastActivityTime (fst (onaudioprocess 1700000000000 [1, 0, 0, 0] freshVoice)) = 1700000000000 \<and>
   activityTimes
      [(1700000000000, [1, 0, 0, 0]), (1700000000300, [1, 0, 0, 0]), (1700000000600, [1, 0, 0, 0])]
      freshVoice = [1700000000000, 1700000000600]"
proof -
  have live: "\<not> stopped freshVoice" "\<not> muted freshVoice"
    by (simp_all add: freshVoice_def voiceWith_def)
  note inst = vad_debounce [OF live, of 1700000000000 "[1, 0, 0, 0]"
      "[(1700000000000, [1, 0, 0, 0]), (1700000000300, [1, 0, 0, 0]), (1700000000600, [1, 0, 0, 0])]"
      "[1, 0, 0, 0]" 1700000000000
      "map (\<lambda>k. (1700000000000 + 5 * int k, [1, 0, 0, 0])) [1 ..< 20]"
      "[1, 0, 0, 0]" "[1, 0, 0, 0]" 1700000000000]
  show ?thesis
    using inst by (simp add: loud_frame freshVoice_def voiceWith_def)
qed

text \<open>
  Two loud frames exactly 500 ms apart: at least 500 ms have passed at the second one,
  and it raises nothing.
\<close>

theorem vad_debounce_counterexample:
  "rms [1, 0, 0, 0] > VAD_THRESHOLD \<and> (1700000000500::int) - 1700000000000 \<ge> 500 \<and>
   activityCount (snd (captureAll
      [(1700000000000, [1, 0, 0, 0]), (1700000000500, [1, 0, 0, 0])] freshVoice)) = 1"
  by (simp add: loud_frame onaudioprocess_live freshVoice_def voiceWith_def activityCount_def)

section \<open>The tutor's calls into the session\<close>

lemma callbacksOf_append: "callbacksOf (a @ b) = callbacksOf a @ callbacksOf b"
  by (induction a rule: callbacksOf.induct) simp_all

lemma callbacksOf_stops: "callbacksOf (map SourceStop xs) = []"
  by (induction xs) simp_all

lemma stopAudioPlayback_live:
  assumes "voiceObj t = Some v" and "realtimeRef t"
  shows "stopAudioPlayback t =
     t\<lparr>voiceObj := Some (fst (clearAudio v)), effects := effects t @ snd (clearAudio v),
       isTutorSpeaking := False\<rparr>"
  using assms
  by (simp add: stopAudioPlayback_def callHandle_def clearAudio_def callbacksOf_append
        callbacksOf_stops)

lemma sendTextToTutor_live:
  assumes "voiceObj t = Some v" and "realtimeRef t" and "\<not> stopped v"
  shows "sendTextToTutor p t =
     t\<lparr>subtitlesText := [], effects := effects t @ [SendClientContent p]\<rparr>"
  using assms by (simp add: sendTextToTutor_def callHandle_def sendText_def)

lemma stopAudioPlayback_detached:
  assumes "voiceObj t = None \<or> \<not> realtimeRef t"
  shows "stopAudioPlayback t = t\<lparr>isTutorSpeaking := False\<rparr>"
  using assms by (auto simp add: stopAudioPlayback_def callHandle_def split: option.split)

lemma sendTextToTutor_effects:
  "effects (sendTextToTutor p t) =
     effects t @ (case voiceObj t of
                    None \<Rightarrow> []
                  | Some v \<Rightarrow> if realtimeRef t \<and> \<not> stopped v then [SendClientContent p] else [])"
  by (simp add: sendTextToTutor_def callHandle_def sendText_def split: option.split)

lemma sendTextToTutor_voice:
  "voiceObj (sendTextToTutor p t) = voiceObj t \<and> realtimeRef (sendTextToTutor p t) = realtimeRef t"
  by (simp add: sendTextToTutor_def callHandle_def sendText_def split: option.split)

lemma ctxMuteMic_live:
  assumes "voiceObj t = Some v" and "realtimeRef t"
  shows "voiceObj (ctxMuteMic t) = Some (muteMic v) \<and> realtimeRef (ctxMuteMic t)"
  using assms by (simp add: ctxMuteMic_def callHandle_def)

lemma clearIfSet_waiting:
  "waiting (clearIfSet r s) =
     (case r of None \<Rightarrow> waiting s | Some i \<Rightarrow> filter (\<lambda>(j, k). j \<noteq> i) (waiting s))"
  by (simp add: clearIfSet_def clearTimeout_def split: option.split)

lemma clearIfSet_other:
  "tutor (clearIfSet r s) = tutor s \<and> slidesRef (clearIfSet r s) = slidesRef s \<and>
   isAutoModeRef (clearIfSet r s) = isAutoModeRef s \<and> stateRef (clearIfSet r s) = stateRef s \<and>
   tutorState (clearIfSet r s) = tutorState s"
  by (simp add: clearIfSet_def clearTimeout_def split: option.split)

lemma sessionEvent_silent:
  assumes "voiceObj (tutor s) = Some v" and "f v = (v, [])"
  shows "sessionEvent f s = s"
proof -
  have "(tutor s)\<lparr>voiceObj := Some v\<rparr> = tutor s" using assms(1) by simp
  then show ?thesis using assms by (simp add: sessionEvent_def withTutor_def)
qed

lemma commit_same: "commit s s = s"
  by (simp add: commit_def)

lemma classified_visual_tutor:
  "tutor (classified (Classified visual_request) s) =
     sendTextToTutor VisualWaitPrompt (ctxMuteMic (tutor s))"
  by (simp add: classified_def setTimeout_def withTutor_def Let_def)

lemma answered_state:
  "tutorState (run answeredTrace initial) = waiting_to_resume \<and>
   stateRef (run answeredTrace initial) = waiting_to_resume \<and>
   isAutoModeRef (run answeredTrace initial) \<and>
   slidesRef (run answeredTrace initial) = twoSlides"
  by code_simp

lemma run_append: "run (a @ b) s = run b (run a s)"
  by (simp add: run_def)

lemma narrating_prefix:
  "run [StartAutoExplain lectureEnv twoSlides, TaskRuns 1 Elapsed] initial =
     \<lparr>tutorState = auto_explaining, isAutoMode = True, currentSlideIndex = 0,
      slidesRef = twoSlides, stateRef = auto_explaining, currentSlideIndexRef = 0,
      isAutoModeRef = True, pendingSlideExplainRef = False, advanceTimerRef = None,
      researchTimerRef = None, isVisualGeneratingRef = False, waiting = [], tasksCreated = 1,
      tutor =
        \<lparr>voiceObj = Some freshVoice, realtimeRef = True, isVoiceConnected = True,
         isRecording = True, isConnecting = False, subtitlesText = [], isTutorSpeaking = False,
         isMicMuted = False,
         effects = [Callback OnOpen, SendClientContent (SlidePrompt 1 2 (twoSlides ! 0))]\<rparr>\<rparr>"
  by code_simp

lemma narrating_state:
  "run narratingTrace initial =
     \<lparr>tutorState = auto_explaining, isAutoMode = True, currentSlideIndex = 0,
      slidesRef = twoSlides, stateRef = auto_explaining, currentSlideIndexRef = 0,
      isAutoModeRef = True, pendingSlideExplainRef = False, advanceTimerRef = Some 2,
      researchTimerRef = None, isVisualGeneratingRef = False,
      waiting = [(2, AdvanceTimer 1)], tasksCreated = 2,
      tutor =
        \<lparr>voiceObj = Some busyVoice1, realtimeRef = True, isVoiceConnected = True,
         isRecording = True, isConnecting = False, subtitlesText = [], isTutorSpeaking = True,
         isMicMuted = False,
         effects = [Callback OnOpen, SendClientContent (SlidePrompt 1 2 (twoSlides ! 0)),
                    Callback OnSpeakingStart, SourceStart 0 0 (1 / 12000),
                    Callback OnTurnComplete]\<rparr>\<rparr>"
proof -
  have split: "narratingTrace =
      [StartAutoExplain lectureEnv twoSlides, TaskRuns 1 Elapsed]
        @ [ServerMessage 0 (audioMessage [0, 0, 0, 0]), ServerMessage 0 turnCompleteMessage]"
    by (simp add: narratingTrace_def)
  have d: "decodeAudioData [0, 0, 0, 0] 24000 (Suc 0) =
      Inr \<lparr>sampleRate = 24000, channelData = [[0, 0]]\<rparr>"
    using supported_program by (simp add: decodeAudioData_eq decoded_mono)
  show ?thesis
    unfolding split run_append narrating_prefix
    by (simp add: run_def step_def sessionEvent_def handleMessage_def handlePart_def
          playAudio_def d duration_def audioMessage_def turnCompleteMessage_def perform_def
          deliver_def withTutor_def handleTurnComplete_def setTimeout_def clearIfSet_def
          commit_def freshVoice_def voiceWith_def twoSlides_def busyVoice1_def Let_def)
qed

lemma failed_start_state:
  "stateRef (run [StartAutoExplain deniedEnv twoSlides] initial) = auto_explaining \<and>
   isAutoModeRef (run [StartAutoExplain deniedEnv twoSlides] initial) \<and>
   slidesRef (run [StartAutoExplain deniedEnv twoSlides] initial) = twoSlides \<and>
   voiceObj (tutor (run [StartAutoExplain deniedEnv twoSlides] initial)) = None \<and>
   effects (tutor (run [StartAutoExplain deniedEnv twoSlides] initial)) = []"
  by code_simp

lemma visual_request_state:
  "voiceObj (tutor (run visualRequestTrace initial)) = Some (muteMic freshVoice) \<and>
   realtimeRef (tutor (run visualRequestTrace initial)) \<and>
   tutorState (run visualRequestTrace initial) = visual_explaining"
  by code_simp

section \<open>Stopping the lecture\<close>

text \<open>
  The timers that check the state do nothing to it once the state ref is \<open>idle\<close>.
\<close>

lemma guarded_timers_inert_when_idle:
  assumes "stateRef s = idle"
  shows "tutorState (runTask GraceTimer r s) = tutorState s"
    and "tutorState (runTask (AdvanceTimer n) r s) = tutorState s"
    and "tutorState (runTask (ResearchTimer txt) r s) = tutorState s"
    and "tutorState (runTask ResumeTimer r s) = tutorState s"
  using assms by (simp_all add: researchTimerFired_def Let_def)

text \<open>
  Claim C1: from every reachable state an explicit stop leads to \<open>idle\<close> and leaves
  no timer waiting, so that no callback scheduled before the stop can move the state
  out of \<open>idle\<close> later. The code, evaluated where the model has just finished
  explaining a generated picture: \<open>stopAutoExplain\<close> sets the state to \<open>idle\<close>,
  the overlay timer that \<open>handleTurnComplete\<close> started one step earlier is still
  waiting, and when it runs it sets the state to \<open>waiting_to_resume\<close>.
\<close>

theorem stop_leaves_visual_timer:
  "tutorState (run visualTrace initial) = visual_explaining \<and>
   tutorState (run (visualTrace @ [StopAutoExplain]) initial) = idle \<and>
   waiting (run (visualTrace @ [StopAutoExplain]) initial) = [(6, VisualCloseTimer)] \<and>
   tutorState (run (visualTrace @ [StopAutoExplain, TaskRuns 6 Elapsed]) initial)
     = waiting_to_resume"
  by code_simp

section \<open>Manual navigation\<close>

text \<open>
  Claim C8, as the code has it. \<open>goToSlide\<close> with a valid index, in auto mode and in
  a state other than \<open>idle\<close>, cancels the advance timer and makes the target slide
  the current one. When a voice session is attached (\<open>realtimeRef\<close> holds its
  handle) it clears the playback and then requests the narration of the target slide
  (the request is the last thing it does; a stopped session gets none); when no session
  is attached, as after a failed start, it clears and sends nothing. In every case it
  leaves the state \<open>auto_explaining\<close>, whatever non-idle state it started in (so the
  state is unchanged only when it was \<open>auto_explaining\<close> already).
\<close>

theorem goToSlide_restarts_narration:
  assumes "0 \<le> index" and "index < int (length (slidesRef s))"
    and "isAutoModeRef s" and "stateRef s \<noteq> idle"
  shows "tutorState (goToSlide index s) = auto_explaining \<and>
         currentSlideIndexRef (goToSlide index s) = nat index \<and>
         (\<forall>i k. advanceTimerRef s = Some i \<longrightarrow> (i, k) \<notin> set (waiting (goToSlide index s))) \<and>
         (\<forall>v. voiceObj (tutor s) = Some v \<and> realtimeRef (tutor s) \<longrightarrow>
            (\<exists>v'. voiceObj (tutor (goToSlide index s)) = Some v' \<and>
                  activeSources v' = [] \<and> nextStartTime v' = 0) \<and>
            effects (tutor (goToSlide index s)) =
              effects (tutor s) @ snd (clearAudio v)
                @ (if stopped v then []
                   else [SendClientContent
                           (SlidePrompt (nat index + 1) (length (slidesRef s))
                              (slidesRef s ! nat index))])) \<and>
         (voiceObj (tutor s) = None \<or> \<not> realtimeRef (tutor s) \<longrightarrow>
            voiceObj (tutor (goToSlide index s)) = voiceObj (tutor s) \<and>
            effects (tutor (goToSlide index s)) = effects (tutor s))"
proof -
  let ?p = "SlidePrompt (nat index + 1) (length (slidesRef s)) (slidesRef s ! nat index)"
  define s2 where "s2 = (clearIfSet (advanceTimerRef s) s)
      \<lparr>currentSlideIndex := nat index, currentSlideIndexRef := nat index\<rparr>"
  define s4 where "s4 = withTutor stopAudioPlayback (withTutor clearSubtitles s2)"
  have idx: "nat index < length (slidesRef s)" using assms(1,2) by simp
  have go: "goToSlide index s = explainCurrentSlide s4"
    using assms by (simp add: goToSlide_def Let_def s2_def s4_def clearIfSet_other)
  have s4_fields: "slidesRef s4 = slidesRef s" "currentSlideIndexRef s4 = nat index"
    "waiting s4 = waiting (clearIfSet (advanceTimerRef s) s)"
    by (simp_all add: s4_def s2_def withTutor_def clearIfSet_other)
  have ex: "explainCurrentSlide s4 =
      withTutor (sendTextToTutor ?p) (withTutor clearSubtitles (s4\<lparr>tutorState := auto_explaining\<rparr>))"
    using idx by (simp add: explainCurrentSlide_def Let_def s4_fields)
  have st: "tutorState (goToSlide index s) = auto_explaining"
    by (simp add: go ex withTutor_def)
  have ix: "currentSlideIndexRef (goToSlide index s) = nat index"
    by (simp add: go ex withTutor_def s4_fields)
  have w: "waiting (goToSlide index s) = waiting (clearIfSet (advanceTimerRef s) s)"
    by (simp add: go ex withTutor_def s4_fields)
  have timer: "(i, k) \<notin> set (waiting (goToSlide index s))" if "advanceTimerRef s = Some i" for i k
    using that by (simp add: w clearIfSet_waiting)
  define t3 where "t3 = clearSubtitles (tutor s)"
  define t5 where "t5 = clearSubtitles (stopAudioPlayback t3)"
  have tut: "tutor (goToSlide index s) = sendTextToTutor ?p t5"
    unfolding go ex
    by (simp add: withTutor_def s4_def s2_def clearIfSet_other t3_def t5_def)
  have attached: "(\<exists>v'. voiceObj (tutor (goToSlide index s)) = Some v' \<and>
                  activeSources v' = [] \<and> nextStartTime v' = 0) \<and>
            effects (tutor (goToSlide index s)) =
              effects (tutor s) @ snd (clearAudio v)
                @ (if stopped v then [] else [SendClientContent ?p])"
    if "voiceObj (tutor s) = Some v \<and> realtimeRef (tutor s)" for v
  proof -
    have t3: "voiceObj t3 = Some v" "realtimeRef t3" "effects t3 = effects (tutor s)"
      using that by (simp_all add: t3_def clearSubtitles_def)
    have t5: "voiceObj t5 = Some (fst (clearAudio v))" "realtimeRef t5"
      "effects t5 = effects (tutor s) @ snd (clearAudio v)"
      using t3 by (simp_all add: t5_def stopAudioPlayback_live [OF t3(1,2)] clearSubtitles_def)
    have ns: "stopped (fst (clearAudio v)) = stopped v" by (simp add: clearAudio_def)
    have "effects (tutor (goToSlide index s)) =
        effects (tutor s) @ snd (clearAudio v)
          @ (if stopped v then [] else [SendClientContent ?p])"
      by (simp add: tut sendTextToTutor_effects t5 ns)
    moreover have "voiceObj (tutor (goToSlide index s)) = Some (fst (clearAudio v))"
      by (simp add: tut sendTextToTutor_voice t5)
    ultimately show ?thesis by (simp add: clearAudio_def)
  qed
  have detached: "voiceObj (tutor (goToSlide index s)) = voiceObj (tutor s) \<and>
            effects (tutor (goToSlide index s)) = effects (tutor s)"
    if "voiceObj (tutor s) = None \<or> \<not> realtimeRef (tutor s)"
  proof -
    have t3: "voiceObj t3 = None \<or> \<not> realtimeRef t3"
      using that by (simp add: t3_def clearSubtitles_def)
    have t5': "t5 = clearSubtitles (t3\<lparr>isTutorSpeaking := False\<rparr>)"
      unfolding t5_def stopAudioPlayback_detached [OF t3] by (rule refl)
    have t5: "voiceObj t5 = voiceObj (tutor s)" "realtimeRef t5 = realtimeRef (tutor s)"
      "effects t5 = effects (tutor s)"
      by (simp_all add: t5' clearSubtitles_def t3_def)
    have "effects (tutor (goToSlide index s)) = effects (tutor s)"
      using that by (auto simp add: tut sendTextToTutor_effects t5 split: option.split)
    moreover have "voiceObj (tutor (goToSlide index s)) = voiceObj (tutor s)"
      by (simp add: tut sendTextToTutor_voice t5)
    ultimately show ?thesis by simp
  qed
  show ?thesis using st ix timer attached detached by blast
qed

text \<open>
  Going to the second slide while the first is being narrated, with audio queued and
  the advance timer waiting: the timer is cancelled, the queued source is stopped and
  the second slide is requested, in that order. Going to the second slide after a start
  that failed for want of a microphone: the state and the index are set and nothing is
  sent.
\<close>

theorem goToSlide_restarts_narration_witness:
  "(0::int) \<le> 1 \<and> 1 < int (length (slidesRef (run narratingTrace initial))) \<and>
   isAutoModeRef (run narratingTrace initial) \<and> stateRef (run narratingTrace initial) \<noteq> idle \<and>
   advanceTimerRef (run narratingTrace initial) = Some 2 \<and>
   (2, AdvanceTimer 1) \<in> set (waiting (run narratingTrace initial)) \<and>
   voiceObj (tutor (run narratingTrace initial)) = Some busyVoice1 \<and>
   realtimeRef (tutor (run narratingTrace initial)) \<and>
   activeSources busyVoice1 = [0] \<and>
   tutorState (goToSlide 1 (run narratingTrace initial)) = auto_explaining \<and>
   currentSlideIndexRef (goToSlide 1 (run narratingTrace initial)) = 1 \<and>
   (2, AdvanceTimer 1) \<notin> set (waiting (goToSlide 1 (run narratingTrace initial))) \<and>
   effects (tutor (goToSlide 1 (run narratingTrace initial))) =
     effects (tutor (run narratingTrace initial))
       @ [SourceStop 0, Callback OnSpeakingStop,
          SendClientContent (SlidePrompt 2 2 (twoSlides ! 1))] \<and>
   voiceObj (tutor (run [StartAutoExplain deniedEnv twoSlides] initial)) = None \<and>
   tutorState (goToSlide 1 (run [StartAutoExplain deniedEnv twoSlides] initial)) = auto_explaining \<and>
   effects (tutor (goToSlide 1 (run [StartAutoExplain deniedEnv twoSlides] initial))) = []"
proof -
  let ?s = "run narratingTrace initial"
  let ?f = "run [StartAutoExplain deniedEnv twoSlides] initial"
  have a: "(0::int) \<le> 1" by simp
  have b: "1 < int (length (slidesRef ?s))" by (simp add: narrating_state twoSlides_def)
  have c: "isAutoModeRef ?s" by (simp add: narrating_state)
  have d: "stateRef ?s \<noteq> idle" by (simp add: narrating_state)
  have e: "advanceTimerRef ?s = Some 2" by (simp add: narrating_state)
  have f: "(2, AdvanceTimer 1) \<in> set (waiting ?s)" by (simp add: narrating_state)
  have g: "voiceObj (tutor ?s) = Some busyVoice1 \<and> realtimeRef (tutor ?s)"
    by (simp add: narrating_state)
  have h: "activeSources busyVoice1 = [0]" by (simp add: busyVoice1_def)
  have sl: "slidesRef ?s = twoSlides" by (simp add: narrating_state)
  have cl: "snd (clearAudio busyVoice1) = [SourceStop 0, Callback OnSpeakingStop]"
    and live: "\<not> stopped busyVoice1"
    by (simp_all add: clearAudio_def busyVoice1_def freshVoice_def voiceWith_def)
  note inst = goToSlide_restarts_narration [OF a b c d]
  have r1: "tutorState (goToSlide 1 ?s) = auto_explaining"
    and r2: "currentSlideIndexRef (goToSlide 1 ?s) = 1"
    using inst by simp_all
  have r3: "(2, AdvanceTimer 1) \<notin> set (waiting (goToSlide 1 ?s))"
    using inst e by blast
  have "effects (tutor (goToSlide 1 ?s)) =
      effects (tutor ?s) @ snd (clearAudio busyVoice1)
        @ (if stopped busyVoice1 then []
           else [SendClientContent (SlidePrompt (nat 1 + 1) (length (slidesRef ?s))
                                      (slidesRef ?s ! nat 1))])"
    using inst g by blast
  then have r4: "effects (tutor (goToSlide 1 ?s)) =
      effects (tutor ?s) @ [SourceStop 0, Callback OnSpeakingStop,
          SendClientContent (SlidePrompt 2 2 (twoSlides ! 1))]"
    by (simp add: cl live sl twoSlides_def)
  have fb: "1 < int (length (slidesRef ?f))" using failed_start_state by (simp add: twoSlides_def)
  have fc: "isAutoModeRef ?f" using failed_start_state by simp
  have fd: "stateRef ?f \<noteq> idle" using failed_start_state by simp
  have fv: "voiceObj (tutor ?f) = None" using failed_start_state by simp
  note finst = goToSlide_restarts_narration [OF a fb fc fd]
  have q1: "tutorState (goToSlide 1 ?f) = auto_explaining" using finst by simp
  have "effects (tutor (goToSlide 1 ?f)) = effects (tutor ?f)" using finst fv by blast
  then have q2: "effects (tutor (goToSlide 1 ?f)) = []" using failed_start_state by simp
  show ?thesis using a b c d e f g h r1 r2 r3 r4 fv q1 q2 by blast
qed

text \<open>
  After the model has answered a question the state is \<open>waiting_to_resume\<close>; going to
  the first slide changes it to \<open>auto_explaining\<close>.
\<close>

theorem goToSlide_counterexample:
  "tutorState (run answeredTrace initial) = waiting_to_resume \<and>
   isAutoModeRef (run answeredTrace initial) \<and>
   tutorState (goToSlide 0 (run answeredTrace initial)) = auto_explaining \<and>
   tutorState (run (answeredTrace @ [GoToSlide 0]) initial) = auto_explaining"
  by code_simp

section \<open>Failure to start a session\<close>

text \<open>
  Claim C9: a failed session start releases every resource acquired so far and leaves
  nothing half-open. The code, evaluated at the two failures: when the microphone is
  refused, \<open>startGeminiVoice\<close> fails with both audio contexts still open; when the
  connection fails, it fails with both audio contexts open and the microphone stream
  live. The tutor context catches the failure and has no handle to stop, and the
  lecture started on it stays in \<open>auto_explaining\<close> without a session.
\<close>

theorem startGeminiVoice_leaks_on_failure:
  "startGeminiVoice deniedEnv =
     Inl (MicrophoneUnavailable,
          \<lparr>audioContext = Live, inputAudioContext = Live, stream = Absent, session = Absent\<rparr>) \<and>
   startGeminiVoice offlineEnv =
     Inl (ConnectionFailed,
          \<lparr>audioContext = Live, inputAudioContext = Live, stream = Live, session = Absent\<rparr>) \<and>
   tutorState (run [StartAutoExplain deniedEnv twoSlides] initial) = auto_explaining \<and>
   voiceObj (tutor (run [StartAutoExplain deniedEnv twoSlides] initial)) = None"
  by code_simp

text \<open>The older client, on the same two failures, releases what it had acquired.\<close>

lemma connect_tears_down:
  "connect deniedEnv =
     Inl (MicrophoneUnavailable,
          \<lparr>audioContext = Released, inputAudioContext = Released, stream = Absent,
           session = Absent\<rparr>) \<and>
   connect offlineEnv =
     Inl (ConnectionFailed,
          \<lparr>audioContext = Released, inputAudioContext = Released, stream = Released,
           session = Absent\<rparr>)"
  by (simp add: connect_def disconnect_def closeContext_def deniedEnv_def offlineEnv_def
        noResources_def Let_def)

section \<open>The muted microphone\<close>

text \<open>
  Claim C10. While the session is muted or stopped, the capture callback does nothing
  for any sequence of frames: no activity event, nothing encoded or sent, no change of
  state. \<open>muteMic\<close> mutes and \<open>stop\<close> stops; after \<open>unmuteMic\<close>, on a session that
  is not stopped, a captured frame is encoded and sent again. When a question is
  classified as a visual request, the state machine enters \<open>visual_explaining\<close> with
  the session muted, and a frame captured then changes nothing.
\<close>

theorem muted_capture_is_silent:
  "(stopped v \<or> muted v \<longrightarrow> captureAll fs v = (v, [])) \<and>
   muted (muteMic v) \<and> stopped (fst (stop v)) \<and>
   (\<not> stopped v \<longrightarrow>
      SendRealtimeInput (encode f) \<in> set (snd (onaudioprocess now f (unmuteMic v)))) \<and>
   (voiceObj (tutor s) = Some v \<and> realtimeRef (tutor s) \<longrightarrow>
      tutorState (classified (Classified visual_request) s) = visual_explaining \<and>
      voiceObj (tutor (classified (Classified visual_request) s)) = Some (muteMic v) \<and>
      step (AudioProcess now f) (classified (Classified visual_request) s)
        = classified (Classified visual_request) s)"
proof (intro conjI impI)
  assume "stopped v \<or> muted v"
  then show "captureAll fs v = (v, [])" by (rule captureAll_silent)
next
  show "muted (muteMic v)" by (simp add: muteMic_def)
next
  show "stopped (fst (stop v))" by (simp add: stop_def clearAudio_def)
next
  assume "\<not> stopped v"
  then show "SendRealtimeInput (encode f) \<in> set (snd (onaudioprocess now f (unmuteMic v)))"
    by (simp add: onaudioprocess_def unmuteMic_def split_beta)
next
  assume live: "voiceObj (tutor s) = Some v \<and> realtimeRef (tutor s)"
  let ?s = "classified (Classified visual_request) s"
  show "tutorState ?s = visual_explaining"
    by (simp add: classified_def setTimeout_def withTutor_def Let_def)
  show obj: "voiceObj (tutor ?s) = Some (muteMic v)"
    using live by (simp add: classified_visual_tutor sendTextToTutor_voice ctxMuteMic_live)
  have "onaudioprocess now f (muteMic v) = (muteMic v, [])"
    by (simp add: onaudioprocess_def muteMic_def)
  then have "sessionEvent (onaudioprocess now f) ?s = ?s"
    using obj by (rule sessionEvent_silent [rotated])
  then show "step (AudioProcess now f) ?s = ?s"
    by (simp add: step_def commit_same)
qed

text \<open>
  The session muted by a visual request: two loud frames captured then raise and send
  nothing.
\<close>

theorem muted_capture_is_silent_witness:
  "(stopped (muteMic freshVoice) \<or> muted (muteMic freshVoice)) \<and>
   \<not> stopped (muteMic freshVoice) \<and>
   voiceObj (tutor (run visualRequestTrace initial)) = Some (muteMic freshVoice) \<and>
   realtimeRef (tutor (run visualRequestTrace initial)) \<and>
   captureAll [(1700000000000, [1, 0, 0, 0]), (1700000000600, [1, 0, 0, 0])] (muteMic freshVoice)
     = (muteMic freshVoice, []) \<and>
   SendRealtimeInput (encode [1, 0, 0, 0])
     \<in> set (snd (onaudioprocess 1700000000000 [1, 0, 0, 0] (unmuteMic (muteMic freshVoice)))) \<and>
   step (AudioProcess 1700000000000 [1, 0, 0, 0])
        (classified (Classified visual_request) (run visualRequestTrace initial))
     = classified (Classified visual_request) (run visualRequestTrace initial)"
proof -
  have a: "stopped (muteMic freshVoice) \<or> muted (muteMic freshVoice)"
    by (simp add: muteMic_def)
  have b: "\<not> stopped (muteMic freshVoice)" by (simp add: muteMic_def freshVoice_def voiceWith_def)
  have c: "voiceObj (tutor (run visualRequestTrace initial)) = Some (muteMic freshVoice) \<and>
      realtimeRef (tutor (run visualRequestTrace initial))"
    using visual_request_state by simp
  from muted_capture_is_silent
         [of "muteMic freshVoice" "[(1700000000000, [1, 0, 0, 0]), (1700000000600, [1, 0, 0, 0])]"
             "[1, 0, 0, 0]" 1700000000000 "run visualRequestTrace initial"]
  have "captureAll [(1700000000000, [1, 0, 0, 0]), (1700000000600, [1, 0, 0, 0])] (muteMic freshVoice)
          = (muteMic freshVoice, [])"
    and "SendRealtimeInput (encode [1, 0, 0, 0])
          \<in> set (snd (onaudioprocess 1700000000000 [1, 0, 0, 0] (unmuteMic (muteMic freshVoice))))"
    and "step (AudioProcess 1700000000000 [1, 0, 0, 0])
           (classified (Classified visual_request) (run visualRequestTrace initial))
         = classified (Classified visual_request) (run visualRequestTrace initial)"
    using a b c by blast+
  then show ?thesis using a b c by blast
qed

end
